theory Spec2Isabelle
  imports Main "HOL-Library.AList" "HOL-Library.Log_Nat"
begin

section \<open>JavaScript strings\<close>

text \<open>
  A JavaScript string is a sequence of UTF-16 code units. The tokens that the outcome
  classifier looks for are kana and CJK ideographs, so the 8-bit \<open>char\<close> of HOL does not
  fit: a string is the list of its code units. \<open>ascii\<close> embeds a Basic Latin literal.
\<close>

type_synonym ustring = "nat list"

definition ascii :: "string \<Rightarrow> ustring" where
  "ascii s = map of_char s"

text \<open>
  \<open>String.prototype.trim\<close> removes, on both ends, the code units of the ECMAScript
  productions WhiteSpace (TAB, VT, FF, ZWNBSP and the space separators) and
  LineTerminator (LF, CR, LS, PS).
\<close>

definition isWhiteSpace :: "nat \<Rightarrow> bool" where
  "isWhiteSpace c =
     (c = 0x0009 \<or> c = 0x000A \<or> c = 0x000B \<or> c = 0x000C \<or> c = 0x000D \<or> c = 0x0020
      \<or> c = 0x00A0 \<or> c = 0x1680 \<or> (0x2000 \<le> c \<and> c \<le> 0x200A) \<or> c = 0x2028
      \<or> c = 0x2029 \<or> c = 0x202F \<or> c = 0x205F \<or> c = 0x3000 \<or> c = 0xFEFF)"

definition trim :: "ustring \<Rightarrow> ustring" where
  "trim s = rev (dropWhile isWhiteSpace (rev (dropWhile isWhiteSpace s)))"

text \<open>
  \<open>String.prototype.toLowerCase\<close> is the engine's Unicode lower-casing. The model maps
  the capitals A to Z and U+212A KELVIN SIGN (which lowers to \<open>k\<close>), the only code units
  whose image is a code unit of one of the Basic Latin tokens that \<open>normalizeResult\<close>
  compares with; every other code unit stays as it is. Kana, ideographs and white space
  have no case, so the tests of \<open>normalizeResult\<close> read the same from this model as
  from the engine.
\<close>

definition toLowerCaseUnit :: "nat \<Rightarrow> nat" where
  "toLowerCaseUnit c =
     (if 0x0041 \<le> c \<and> c \<le> 0x005A then c + 0x0020
      else if c = 0x212A then 0x006B
      else c)"

definition toLowerCase :: "ustring \<Rightarrow> ustring" where
  "toLowerCase s = map toLowerCaseUnit s"

text \<open>
  \<open>String.prototype.includes\<close>, written \<open>includesStr\<close> (the plain name is an
  Isabelle keyword): the pattern occurs as a contiguous run of code units.
\<close>

fun startsWith :: "ustring \<Rightarrow> ustring \<Rightarrow> bool" where
  "startsWith s [] = True"
| "startsWith [] (p # ps) = False"
| "startsWith (c # cs) (p # ps) = (c = p \<and> startsWith cs ps)"

fun includesStr :: "ustring \<Rightarrow> ustring \<Rightarrow> bool" where
  "includesStr [] p = (p = [])"
| "includesStr (c # cs) p = (startsWith (c # cs) p \<or> includesStr cs p)"

section \<open>Outcome classifier\<close>

text \<open>The literals of \<open>normalizeResult\<close>, by their code points.\<close>

definition tokAn :: ustring where \<comment> \<open>U+5B89\<close>
  "tokAn = [0x5B89]"
definition tokHitto :: ustring where \<comment> \<open>U+30D2 U+30C3 U+30C8\<close>
  "tokHitto = [0x30D2, 0x30C3, 0x30C8]"
definition tokNiruida :: ustring where \<comment> \<open>U+4E8C U+5841 U+6253\<close>
  "tokNiruida = [0x4E8C, 0x5841, 0x6253]"
definition tokSanruida :: ustring where \<comment> \<open>U+4E09 U+5841 U+6253\<close>
  "tokSanruida = [0x4E09, 0x5841, 0x6253]"
definition tokHonruida :: ustring where \<comment> \<open>U+672C U+5841 U+6253\<close>
  "tokHonruida = [0x672C, 0x5841, 0x6253]"
definition tokHomuran :: ustring where \<comment> \<open>U+30DB U+30FC U+30E0 U+30E9 U+30F3\<close>
  "tokHomuran = [0x30DB, 0x30FC, 0x30E0, 0x30E9, 0x30F3]"
definition tokSanshin :: ustring where \<comment> \<open>U+4E09 U+632F\<close>
  "tokSanshin = [0x4E09, 0x632F]"
definition tokShikyuWalk :: ustring where \<comment> \<open>U+56DB U+7403\<close>
  "tokShikyuWalk = [0x56DB, 0x7403]"
definition tokShikyuHbp :: ustring where \<comment> \<open>U+6B7B U+7403\<close>
  "tokShikyuHbp = [0x6B7B, 0x7403]"
definition tokGihi :: ustring where \<comment> \<open>U+72A0 U+98DB\<close>
  "tokGihi = [0x72A0, 0x98DB]"
definition tokGida :: ustring where \<comment> \<open>U+72A0 U+6253\<close>
  "tokGida = [0x72A0, 0x6253]"
definition tokGoro :: ustring where \<comment> \<open>U+30B4 U+30ED\<close>
  "tokGoro = [0x30B4, 0x30ED]"
definition tokFurai :: ustring where \<comment> \<open>U+30D5 U+30E9 U+30A4\<close>
  "tokFurai = [0x30D5, 0x30E9, 0x30A4]"
definition tokHi :: ustring where \<comment> \<open>U+98DB\<close>
  "tokHi = [0x98DB]"
definition tokEra :: ustring where \<comment> \<open>U+30A8 U+30E9 U+30FC\<close>
  "tokEra = [0x30A8, 0x30E9, 0x30FC]"
definition tokShitsu :: ustring where \<comment> \<open>U+5931\<close>
  "tokShitsu = [0x5931]"

definition normalizeResult :: "ustring \<Rightarrow> ustring" where
  "normalizeResult text =
     (if trim text = [] then []
      else let t = trim (toLowerCase text) in
        if includesStr t tokAn \<or> includesStr t tokHitto \<or> t = ascii ''h'' then ascii ''hit''
        else if includesStr t tokNiruida \<or> t = ascii ''2b'' then ascii ''2hit''
        else if includesStr t tokSanruida \<or> t = ascii ''3b'' then ascii ''3hit''
        else if includesStr t tokHonruida \<or> includesStr t tokHomuran \<or> t = ascii ''hr''
          then ascii ''homerun''
        else if includesStr t tokSanshin \<or> t = ascii ''k'' then ascii ''strikeout''
        else if includesStr t tokShikyuWalk \<or> t = ascii ''bb'' then ascii ''walk''
        else if includesStr t tokShikyuHbp \<or> t = ascii ''hbp'' then ascii ''hbp''
        else if includesStr t tokGihi \<or> t = ascii ''sf'' then ascii ''sacrifice_fly''
        else if includesStr t tokGida \<or> t = ascii ''sh'' then ascii ''sacrifice_bunt''
        else if includesStr t tokGoro then ascii ''grounder''
        else if includesStr t tokFurai \<or> includesStr t tokHi then ascii ''fly''
        else if includesStr t tokEra \<or> includesStr t tokShitsu then ascii ''error''
        else ascii ''custom'')"

section \<open>JavaScript arrays and objects\<close>

text \<open>
  An array of strings can have holes: writing past the end extends it, and a hole reads
  as \<open>undefined\<close>, which is falsy like the empty string. An element is therefore
  optional, \<open>None\<close> being the hole. \<open>arrayGet\<close> is \<open>xs[i]\<close> and \<open>arraySet\<close> is
  \<open>xs[i] = v\<close>.
\<close>

definition arrayGet :: "'a option list \<Rightarrow> nat \<Rightarrow> 'a option" where
  "arrayGet xs i = (if i < length xs then xs ! i else None)"

definition arraySet :: "'a option list \<Rightarrow> nat \<Rightarrow> 'a \<Rightarrow> 'a option list" where
  "arraySet xs i v =
     (if i < length xs then xs[i := Some v]
      else xs @ replicate (i - length xs) None @ [Some v])"

text \<open>
  The object \<open>battingStats\<close> is keyed by roster index. It is the list of its properties;
  a property can hold \<open>undefined\<close> (\<open>movePlayer\<close> stores what it read from a missing
  key), written \<open>None\<close>. \<open>objGet\<close> is \<open>obj[k]\<close>, which is \<open>undefined\<close> for a missing
  key as well; \<open>objSet\<close> is \<open>obj[k] = v\<close>. The engine enumerates integer keys in
  ascending order and the list keeps them in order of creation: the two loops over the
  object (\<open>deletePlayer\<close>, \<open>getTeamStats\<close>) do not depend on the order.
\<close>

type_synonym 'v jsobject = "(nat \<times> 'v option) list"

definition objGet :: "'v jsobject \<Rightarrow> nat \<Rightarrow> 'v option" where
  "objGet obj k = (case map_of obj k of None \<Rightarrow> None | Some v \<Rightarrow> v)"

definition objSet :: "'v jsobject \<Rightarrow> nat \<Rightarrow> 'v option \<Rightarrow> 'v jsobject" where
  "objSet obj k v = AList.update k v obj"

definition objKeys :: "'v jsobject \<Rightarrow> nat list" where
  "objKeys obj = map fst obj"

definition objValues :: "'v jsobject \<Rightarrow> 'v option list" where
  "objValues obj = map snd obj"

datatype jsError = TypeError

section \<open>Data model\<close>

record Player =
  name :: ustring
  pos :: ustring
  face :: ustring

record BattingStats =
  hits :: int
  atBats :: int
  walks :: int
  results :: "ustring option list"

record GameState =
  inning :: int
  isTopHalf :: bool
  currentBatterIndex :: int
  battingStats :: "BattingStats jsobject"

text \<open>
  The component's state cells that the roster and ledger functions read or write. The
  bench lists, the tab, the toast and the record id are left out: none of the functions
  below touches them. Entries are values here. In the page an entry is an object and
  \<open>updateBattingResult\<close> writes into the \<open>results\<close> array of the entry it copies,
  but no array is ever reachable from two keys: entries come from object literals or
  from the parsed record, and \<open>movePlayer\<close> and \<open>deletePlayer\<close> move them from key to
  key without keeping the old reference.
\<close>

record AppState =
  players :: "Player list"
  gameState :: GameState
  playerName :: ustring
  playerPos :: ustring

definition zeroStats :: BattingStats where
  "zeroStats = \<lparr>hits = 0, atBats = 0, walks = 0, results = []\<rparr>"

section \<open>Batting ledger\<close>

definition nonAtBatResults :: "ustring list" where
  "nonAtBatResults =
     [ascii ''walk'', ascii ''hbp'', ascii ''sacrifice_bunt'', ascii ''sacrifice_fly'']"

definition hitResults :: "ustring list" where
  "hitResults = [ascii ''hit'', ascii ''2hit'', ascii ''3hit'', ascii ''homerun'']"

definition walkResults :: "ustring list" where
  "walkResults = [ascii ''walk'', ascii ''hbp'']"

definition updateStatsForResult :: "BattingStats \<Rightarrow> ustring \<Rightarrow> int \<Rightarrow> BattingStats" where
  "updateStatsForResult stats result multiplier =
     (let s1 = (if result \<noteq> [] \<and> result \<notin> set nonAtBatResults
                then stats\<lparr>atBats := atBats stats + multiplier\<rparr> else stats);
          s2 = (if result \<in> set hitResults
                then s1\<lparr>hits := hits s1 + multiplier\<rparr> else s1)
      in if result \<in> set walkResults then s2\<lparr>walks := walks s2 + multiplier\<rparr> else s2)"

text \<open>
  The part of \<open>updateBattingResult\<close> that works on the copy of one player's entry: undo
  the old text of the slot, store the new text, apply it, clamp.
\<close>

definition applyResult :: "BattingStats \<Rightarrow> nat \<Rightarrow> ustring \<Rightarrow> BattingStats" where
  "applyResult stats atBatIndex result =
     (let oldResult = arrayGet (results stats) atBatIndex;
          s1 = (case oldResult of
                  None \<Rightarrow> stats
                | Some old \<Rightarrow>
                    if old \<noteq> [] then updateStatsForResult stats (normalizeResult old) (- 1)
                    else stats);
          s2 = s1\<lparr>results := arraySet (results s1) atBatIndex result\<rparr>;
          s3 = (if trim result \<noteq> [] then updateStatsForResult s2 (normalizeResult result) 1
                else s2)
      in s3\<lparr>hits := max 0 (hits s3), atBats := max 0 (atBats s3), walks := max 0 (walks s3)\<rparr>)"

definition updateBattingResult :: "nat \<Rightarrow> nat \<Rightarrow> ustring \<Rightarrow> GameState \<Rightarrow> GameState" where
  "updateBattingResult playerIndex atBatIndex result gs =
     (let newBattingStats = battingStats gs;
          newBattingStats = (if objGet newBattingStats playerIndex = None
                             then objSet newBattingStats playerIndex (Some zeroStats)
                             else newBattingStats);
          stats = applyResult (the (objGet newBattingStats playerIndex)) atBatIndex result
      in gs\<lparr>battingStats := objSet newBattingStats playerIndex (Some stats)\<rparr>)"

text \<open>
  The entry of a player as the page reads it: a missing entry stands for the all-zero
  entry with no result.
\<close>

definition entryOf :: "GameState \<Rightarrow> nat \<Rightarrow> BattingStats" where
  "entryOf gs playerIndex =
     (case objGet (battingStats gs) playerIndex of None \<Rightarrow> zeroStats | Some stats \<Rightarrow> stats)"

text \<open>
  The counters recomputed from the stored texts, in the words of the specification: the
  results classified as a hit of any kind, the results that are not blank and whose class
  is outside the four that are no at-bat, and the results classified as walk or
  hit-by-pitch. A result is blank when its class is the empty one.
\<close>

definition storedResults :: "BattingStats \<Rightarrow> ustring list" where
  "storedResults stats = [r. Some r \<leftarrow> results stats]"

definition countHits :: "BattingStats \<Rightarrow> int" where
  "countHits stats =
     int (length [r \<leftarrow> storedResults stats. normalizeResult r \<in> set hitResults])"

definition countAtBats :: "BattingStats \<Rightarrow> int" where
  "countAtBats stats =
     int (length [r \<leftarrow> storedResults stats.
            normalizeResult r \<noteq> [] \<and> normalizeResult r \<notin> set nonAtBatResults])"

definition countWalks :: "BattingStats \<Rightarrow> int" where
  "countWalks stats =
     int (length [r \<leftarrow> storedResults stats. normalizeResult r \<in> set walkResults])"

text \<open>
  What one slot contributes to each recomputed counter; a hole contributes nothing. The
  proofs below use them to follow a counter through an edit.
\<close>

definition hitDelta :: "ustring option \<Rightarrow> int" where
  "hitDelta slot = (case slot of None \<Rightarrow> 0
     | Some r \<Rightarrow> if normalizeResult r \<in> set hitResults then 1 else 0)"

definition atBatDelta :: "ustring option \<Rightarrow> int" where
  "atBatDelta slot = (case slot of None \<Rightarrow> 0
     | Some r \<Rightarrow> if normalizeResult r \<noteq> [] \<and> normalizeResult r \<notin> set nonAtBatResults
                then 1 else 0)"

definition walkDelta :: "ustring option \<Rightarrow> int" where
  "walkDelta slot = (case slot of None \<Rightarrow> 0
     | Some r \<Rightarrow> if normalizeResult r \<in> set walkResults then 1 else 0)"

text \<open>A run of slot edits on one entry, first edit first.\<close>

fun applyResults :: "BattingStats \<Rightarrow> (nat \<times> ustring) list \<Rightarrow> BattingStats" where
  "applyResults stats [] = stats"
| "applyResults stats ((atBatIndex, result) # edits) =
     applyResults (applyResult stats atBatIndex result) edits"

text \<open>The same run through \<open>updateBattingResult\<close>, for one player.\<close>

fun updateBattingResults :: "nat \<Rightarrow> GameState \<Rightarrow> (nat \<times> ustring) list \<Rightarrow> GameState" where
  "updateBattingResults playerIndex gs [] = gs"
| "updateBattingResults playerIndex gs ((atBatIndex, result) # edits) =
     updateBattingResults playerIndex (updateBattingResult playerIndex atBatIndex result gs) edits"

section \<open>Roster\<close>

definition alertEnterPlayerName :: ustring where
  \<comment> \<open>the text of the prompt shown for a blank name\<close>
  "alertEnterPlayerName =
     [0x9078, 0x624B, 0x540D, 0x3092, 0x5165, 0x529B, 0x3057, 0x3066, 0x304F, 0x3060,
      0x3055, 0x3044]"

definition faceGood :: ustring where \<comment> \<open>U+1F60A as a surrogate pair\<close>
  "faceGood = [0xD83D, 0xDE0A]"

text \<open>\<open>addPlayer\<close> returns the text it alerts, if any, and the state it leaves.\<close>

definition addPlayer :: "AppState \<Rightarrow> ustring option \<times> AppState" where
  "addPlayer st =
     (if trim (playerName st) = [] then (Some alertEnterPlayerName, st)
      else
        let newPlayers =
              players st @ [\<lparr>name = trim (playerName st), pos = playerPos st, face = faceGood\<rparr>];
            newBattingStats =
              objSet (battingStats (gameState st)) (length newPlayers - 1) (Some zeroStats)
        in (None, st\<lparr>players := newPlayers,
                      gameState := (gameState st)\<lparr>battingStats := newBattingStats\<rparr>,
                      playerName := []\<rparr>))"

text \<open>
  \<open>deletePlayer\<close>: reading \<open>players[index].name\<close> for the question throws when there is
  no such player; the answer to \<open>confirm\<close> is an argument. The loop body over the keys
  of the old object is \<open>rekey\<close>.
\<close>

definition rekey ::
  "nat \<Rightarrow> BattingStats jsobject \<Rightarrow> nat \<Rightarrow> BattingStats jsobject \<Rightarrow> BattingStats jsobject"
where
  "rekey index old oldIdx newBattingStats =
     (if oldIdx < index then objSet newBattingStats oldIdx (objGet old oldIdx)
      else if oldIdx > index then objSet newBattingStats (oldIdx - 1) (objGet old oldIdx)
      else newBattingStats)"

definition deletePlayer :: "nat \<Rightarrow> bool \<Rightarrow> AppState \<Rightarrow> jsError + AppState" where
  "deletePlayer index confirmed st =
     (if index \<ge> length (players st) then Inl TypeError
      else if confirmed then
        let newPlayers =
              map fst (filter (\<lambda>(p, i). i \<noteq> index) (zip (players st) [0..<length (players st)]));
            old = battingStats (gameState st);
            newBattingStats = fold (rekey index old) (objKeys old) []
        in Inr (st\<lparr>players := newPlayers,
                    gameState := (gameState st)\<lparr>battingStats := newBattingStats\<rparr>\<rparr>)
      else Inr st)"

text \<open>
  \<open>movePlayer\<close>: the buttons pass the index of a roster row. For an index that is no
  row the swap would leave a hole in the array, which the type of \<open>players\<close> excludes,
  so the model has no result there (\<open>None\<close>).
\<close>

datatype direction = Up | Down

definition movePlayer :: "nat \<Rightarrow> direction \<Rightarrow> AppState \<Rightarrow> AppState option" where
  "movePlayer index dir st =
     (let newIndex = (if dir = Up then int index - 1 else int index + 1)
      in if newIndex < 0 \<or> newIndex \<ge> int (length (players st)) then Some st
         else if index \<ge> length (players st) then None
         else
           let j = nat newIndex;
               newPlayers = (players st)[index := players st ! j, j := players st ! index];
               newBattingStats = battingStats (gameState st);
               tempStats = objGet newBattingStats index;
               newBattingStats = objSet newBattingStats index (objGet newBattingStats j);
               newBattingStats = objSet newBattingStats j tempStats
           in Some (st\<lparr>players := newPlayers,
                       gameState := (gameState st)\<lparr>battingStats := newBattingStats\<rparr>\<rparr>))"

section \<open>Inning cursor\<close>

text \<open>The updater of the button that steps the cursor back.\<close>

definition retreat :: "GameState \<Rightarrow> GameState" where
  "retreat prev =
     (if \<not> isTopHalf prev \<and> inning prev > 1 then prev\<lparr>isTopHalf := True\<rparr>
      else if isTopHalf prev \<and> inning prev > 1
        then prev\<lparr>isTopHalf := False, inning := inning prev - 1\<rparr>
      else prev)"

text \<open>The updater of the button that steps the cursor forward.\<close>

definition advance :: "GameState \<Rightarrow> GameState" where
  "advance prev =
     (if isTopHalf prev then prev\<lparr>isTopHalf := False\<rparr>
      else prev\<lparr>isTopHalf := True, inning := inning prev + 1\<rparr>)"

section \<open>Team aggregator\<close>

text \<open>
  The counters are integers; the two rates divide them as IEEE doubles and print the
  quotient with \<open>toFixed(3)\<close>. Integers below \<open>2 ^ 53\<close> in magnitude are doubles, and
  the quotient of two of them is the double nearest to the exact quotient, a tie going
  to the even mantissa. A double is written as the pair \<open>(m, e)\<close> that stands for
  \<open>m * 2 ^ e\<close>; \<open>jsDivide x y\<close> is \<open>x / y\<close> for a divisor above zero, which is what
  both call sites guard. It picks the exponent that puts the quotient of the magnitudes
  between \<open>2 ^ 52\<close> and \<open>2 ^ 53\<close> and rounds that to an integer.
\<close>

type_synonym double = "int \<times> int"

definition roundHalfEven :: "int \<Rightarrow> int \<Rightarrow> int" where
  "roundHalfEven num den =
     (let q = num div den; r = num mod den
      in if 2 * r < den then q
         else if 2 * r > den then q + 1
         else if even q then q else q + 1)"

definition jsDivide :: "int \<Rightarrow> int \<Rightarrow> double" where
  "jsDivide x y =
     (if x = 0 then (0, 0)
      else
        let n = \<bar>x\<bar>;
            e1 = bitlen n - bitlen y - 53;
            e = (if n * 2 ^ nat (- e1) \<ge> 2 ^ 53 * (y * 2 ^ nat e1) then e1 + 1 else e1)
        in (sgn x * roundHalfEven (n * 2 ^ nat (- e)) (y * 2 ^ nat e), e))"

text \<open>The decimal digits of a natural number, as code units.\<close>

fun decimal :: "nat \<Rightarrow> ustring" where
  "decimal n = (if n < 10 then [0x30 + n] else decimal (n div 10) @ [0x30 + n mod 10])"

declare decimal.simps [simp del]

text \<open>
  \<open>Number.prototype.toFixed\<close> with three fraction digits, for a magnitude below
  \<open>10 ^ 21\<close>: \<open>n\<close> is the integer nearest to a thousand times the magnitude, the larger
  one of two; its digits are padded with zeros to four and the point goes before the
  last three; a negative number gets a minus sign.
\<close>

definition toFixed3 :: "double \<Rightarrow> ustring" where
  "toFixed3 d =
     (case d of (m, e) \<Rightarrow>
        let a = \<bar>m\<bar>;
            n = nat ((2 * 1000 * a * 2 ^ nat e + 2 ^ nat (- e)) div (2 * 2 ^ nat (- e)));
            digits = decimal n;
            padded = replicate (4 - length digits) 0x30 @ digits;
            k = length padded
        in (if m < 0 then ascii ''-'' else [])
           @ take (k - 3) padded @ ascii ''.'' @ drop (k - 3) padded)"

record TeamStats =
  totalHits :: int
  totalAtBats :: int
  totalWalks :: int
  avg :: ustring
  obp :: ustring

text \<open>\<open>x || 0\<close> on a number.\<close>

definition orZero :: "int \<Rightarrow> int" where
  "orZero x = (if x = 0 then 0 else x)"

text \<open>
  The loop of \<open>getTeamStats\<close> over the values of the object, with the three running
  totals. Reading a field of a value that is \<open>undefined\<close> throws.
\<close>

fun sumStats ::
  "BattingStats option list \<Rightarrow> int \<times> int \<times> int \<Rightarrow> jsError + int \<times> int \<times> int"
where
  "sumStats [] totals = Inr totals"
| "sumStats (None # rest) totals = Inl TypeError"
| "sumStats (Some stats # rest) (h, a, w) =
     sumStats rest (h + orZero (hits stats), a + orZero (atBats stats),
                    w + orZero (walks stats))"

definition getTeamStats :: "GameState \<Rightarrow> jsError + TeamStats" where
  "getTeamStats gs =
     (case sumStats (objValues (battingStats gs)) (0, 0, 0) of
        Inl err \<Rightarrow> Inl err
      | Inr (h, a, w) \<Rightarrow>
          Inr \<lparr>totalHits = h, totalAtBats = a, totalWalks = w,
               avg = (if a > 0 then toFixed3 (jsDivide h a) else ascii ''.---''),
               obp = (if a + w > 0 then toFixed3 (jsDivide (h + w) (a + w))
                      else ascii ''.---'')\<rparr>)"

text \<open>
  A number of thousandths written with three decimal places, as the specification words
  the two rates: the digits of the whole part, a point, and the three digits of the
  rest.
\<close>

definition fixed3 :: "nat \<Rightarrow> ustring" where
  "fixed3 n =
     decimal (n div 1000) @ ascii ''.''
       @ [0x30 + n div 100 mod 10, 0x30 + n div 10 mod 10, 0x30 + n mod 10]"

text \<open>
  A string is a quotient written to three decimal places when it is the sign and the
  three-place numeral of a number of thousandths that lies within half a thousandth of
  the magnitude of the quotient, up to the rounding of the double division (at most the
  quotient times \<open>2 ^ - 53\<close>).
\<close>

definition threeDecimals :: "ustring \<Rightarrow> int \<Rightarrow> int \<Rightarrow> bool" where
  "threeDecimals str num den \<longleftrightarrow>
     (\<exists>k. str = (if num < 0 then ascii ''-'' else []) @ fixed3 k
          \<and> \<bar>real k / 1000 - \<bar>real_of_int num\<bar> / real_of_int den\<bar>
              \<le> 1 / 2000 + \<bar>real_of_int num\<bar> / real_of_int den / 2 ^ 53)"

section \<open>An example state\<close>

text \<open>
  Three players with different entries, and a name field that holds a space and an
  ideographic space. The theorems with hypotheses are instantiated at this state.
\<close>

definition exampleRoster :: AppState where
  "exampleRoster =
     \<lparr>players = [\<lparr>name = ascii ''A'', pos = ascii ''DH'', face = faceGood\<rparr>,
                 \<lparr>name = ascii ''B'', pos = ascii ''DH'', face = faceGood\<rparr>,
                 \<lparr>name = ascii ''C'', pos = ascii ''DH'', face = faceGood\<rparr>],
      gameState =
        \<lparr>inning = 1, isTopHalf = True, currentBatterIndex = 0,
         battingStats =
           [(0, Some \<lparr>hits = 0, atBats = 1, walks = 0, results = [Some tokSanshin]\<rparr>),
            (1, Some zeroStats),
            (2, Some \<lparr>hits = 1, atBats = 1, walks = 0, results = [Some tokAn]\<rparr>)]\<rparr>,
      playerName = [0x0020, 0x3000],
      playerPos = ascii ''DH''\<rparr>"

text \<open>
  A record saved without a game state: \<open>loadData\<close> sets the players from the record and
  falls back to a game state with no entry.
\<close>

definition legacyRoster :: AppState where
  "legacyRoster =
     \<lparr>players = [\<lparr>name = ascii ''A'', pos = ascii ''DH'', face = faceGood\<rparr>,
                 \<lparr>name = ascii ''B'', pos = ascii ''DH'', face = faceGood\<rparr>],
      gameState = \<lparr>inning = 1, isTopHalf = True, currentBatterIndex = 0, battingStats = []\<rparr>,
      playerName = [],
      playerPos = ascii ''DH''\<rparr>"

section \<open>Properties of the string functions\<close>

lemma ascii_eq_iff: "ascii a = ascii b \<longleftrightarrow> a = b"
  by (simp add: ascii_def inj_map_eq_map [OF inj_of_char])

lemma ascii_Nil_iff: "ascii s = [] \<longleftrightarrow> s = []"
  by (simp add: ascii_def)

lemma startsWith_iff: "startsWith s p \<longleftrightarrow> (\<exists>b. s = p @ b)"
  by (induction s p rule: startsWith.induct) auto

lemma includesStr_iff: "includesStr s p \<longleftrightarrow> (\<exists>a b. s = a @ p @ b)"
proof (induction s)
  case Nil
  show ?case by simp
next
  case (Cons c cs)
  have "(\<exists>a b. c # cs = a @ p @ b) \<longleftrightarrow> (\<exists>b. c # cs = p @ b) \<or> (\<exists>a b. cs = a @ p @ b)"
  proof
    assume "\<exists>a b. c # cs = a @ p @ b"
    then obtain a b where ab: "c # cs = a @ p @ b" by blast
    show "(\<exists>b. c # cs = p @ b) \<or> (\<exists>a b. cs = a @ p @ b)"
    proof (cases a)
      case Nil
      with ab show ?thesis by auto
    next
      case (Cons x a')
      with ab have "cs = a' @ p @ b" by simp
      then show ?thesis by blast
    qed
  next
    assume "(\<exists>b. c # cs = p @ b) \<or> (\<exists>a b. cs = a @ p @ b)"
    then show "\<exists>a b. c # cs = a @ p @ b"
    proof
      assume "\<exists>b. c # cs = p @ b"
      then obtain b where "c # cs = [] @ p @ b" by auto
      then show ?thesis by blast
    next
      assume "\<exists>a b. cs = a @ p @ b"
      then obtain a b where "c # cs = (c # a) @ p @ b" by auto
      then show ?thesis by blast
    qed
  qed
  with Cons show ?case by (simp add: startsWith_iff)
qed

lemma trim_around:
  assumes "\<not> isWhiteSpace x" and "\<not> isWhiteSpace y"
  shows "trim (a @ x # m @ y # b) =
           dropWhile isWhiteSpace a @ x # m @ y # rev (dropWhile isWhiteSpace (rev b))"
proof -
  have 1: "dropWhile isWhiteSpace (a @ x # m @ y # b) = dropWhile isWhiteSpace a @ x # m @ y # b"
    using assms(1) by (rule dropWhile_append3)
  have 2: "rev (dropWhile isWhiteSpace a @ x # m @ y # b)
             = rev b @ y # (rev m @ x # rev (dropWhile isWhiteSpace a))"
    by simp
  have 3: "dropWhile isWhiteSpace (rev b @ y # (rev m @ x # rev (dropWhile isWhiteSpace a)))
      = dropWhile isWhiteSpace (rev b) @ y # (rev m @ x # rev (dropWhile isWhiteSpace a))"
    using assms(2) by (rule dropWhile_append3)
  show ?thesis
    unfolding trim_def 1 2 3 by simp
qed

lemma trim_around1:
  assumes "\<not> isWhiteSpace x"
  shows "trim (a @ x # b) = dropWhile isWhiteSpace a @ x # rev (dropWhile isWhiteSpace (rev b))"
proof -
  have 1: "dropWhile isWhiteSpace (a @ x # b) = dropWhile isWhiteSpace a @ x # b"
    using assms by (rule dropWhile_append3)
  have 2: "rev (dropWhile isWhiteSpace a @ x # b) = rev b @ x # rev (dropWhile isWhiteSpace a)"
    by simp
  have 3: "dropWhile isWhiteSpace (rev b @ x # rev (dropWhile isWhiteSpace a))
      = dropWhile isWhiteSpace (rev b) @ x # rev (dropWhile isWhiteSpace a)"
    using assms by (rule dropWhile_append3)
  show ?thesis
    unfolding trim_def 1 2 3 by simp
qed

text \<open>A pattern whose first and last code units are no white space survives trim.\<close>

lemma includesStr_trim:
  assumes "includesStr s p" and "p \<noteq> []"
    and "\<not> isWhiteSpace (hd p)" and "\<not> isWhiteSpace (last p)"
  shows "includesStr (trim s) p"
proof -
  from assms(1) obtain a b where s: "s = a @ p @ b"
    unfolding includesStr_iff by blast
  show ?thesis
  proof (cases "length p = 1")
    case True
    then obtain x where p: "p = [x]" by (cases p) auto
    with assms(3) have "\<not> isWhiteSpace x" by simp
    then have "trim s = dropWhile isWhiteSpace a @ p @ rev (dropWhile isWhiteSpace (rev b))"
      unfolding s p using trim_around1 [of x a b] by simp
    then show ?thesis unfolding includesStr_iff by blast
  next
    case False
    with assms(2) obtain x m y where p: "p = x # m @ [y]"
      by (metis append_butlast_last_id length_Cons list.exhaust list.size(3) One_nat_def)
    with assms(3,4) have "\<not> isWhiteSpace x" "\<not> isWhiteSpace y" by simp_all
    then have "trim s = dropWhile isWhiteSpace a @ p @ rev (dropWhile isWhiteSpace (rev b))"
      unfolding s p using trim_around [of x y a m b] by simp
    then show ?thesis unfolding includesStr_iff by blast
  qed
qed

lemma includesStr_map: "includesStr s p \<Longrightarrow> includesStr (map f s) (map f p)"
  unfolding includesStr_iff by (metis map_append)

lemma includesStr_nonempty: "includesStr s p \<Longrightarrow> p \<noteq> [] \<Longrightarrow> s \<noteq> []"
  unfolding includesStr_iff by auto

lemma includesStr_normal:
  assumes "includesStr raw p" and "p \<noteq> []"
    and "\<not> isWhiteSpace (hd p)" and "\<not> isWhiteSpace (last p)"
    and "map toLowerCaseUnit p = p"
  shows "includesStr (trim (toLowerCase raw)) p" and "trim raw \<noteq> []"
proof -
  have "includesStr (toLowerCase raw) p"
    using includesStr_map [OF assms(1), of toLowerCaseUnit] assms(5)
    by (simp add: toLowerCase_def)
  then show "includesStr (trim (toLowerCase raw)) p"
    using assms(2,3,4) by (rule includesStr_trim)
  have "includesStr (trim raw) p"
    using assms(1,2,3,4) by (rule includesStr_trim)
  then show "trim raw \<noteq> []"
    using assms(2) by (rule includesStr_nonempty)
qed

lemma tokAn_normal:
  "includesStr raw tokAn \<Longrightarrow> includesStr (trim (toLowerCase raw)) tokAn \<and> trim raw \<noteq> []"
  using includesStr_normal [of raw tokAn]
  by (simp add: tokAn_def isWhiteSpace_def toLowerCaseUnit_def)

lemma tokHitto_normal:
  "includesStr raw tokHitto \<Longrightarrow> includesStr (trim (toLowerCase raw)) tokHitto \<and> trim raw \<noteq> []"
  using includesStr_normal [of raw tokHitto]
  by (simp add: tokHitto_def isWhiteSpace_def toLowerCaseUnit_def)

section \<open>Properties of the classifier\<close>

lemmas normalize_eval =
  normalizeResult_def trim_def toLowerCase_def toLowerCaseUnit_def isWhiteSpace_def ascii_def
  tokAn_def tokHitto_def tokNiruida_def tokSanruida_def tokHonruida_def tokHomuran_def


lemma nr_hit:
  assumes "trim raw \<noteq> []"
    and "includesStr (trim (toLowerCase raw)) tokAn \<or> includesStr (trim (toLowerCase raw)) tokHitto
         \<or> trim (toLowerCase raw) = ascii ''h''"
  shows "normalizeResult raw = ascii ''hit''"
  unfolding normalizeResult_def Let_def if_not_P [OF assms(1)] if_P [OF assms(2)] ..

lemma nr_double:
  assumes "trim raw \<noteq> []"
    and "\<not> (includesStr (trim (toLowerCase raw)) tokAn
            \<or> includesStr (trim (toLowerCase raw)) tokHitto
            \<or> trim (toLowerCase raw) = ascii ''h'')"
    and "includesStr (trim (toLowerCase raw)) tokNiruida \<or> trim (toLowerCase raw) = ascii ''2b''"
  shows "normalizeResult raw = ascii ''2hit''"
  unfolding normalizeResult_def Let_def if_not_P [OF assms(1)] if_not_P [OF assms(2)]
    if_P [OF assms(3)] ..

lemma nr_triple:
  assumes "trim raw \<noteq> []"
    and "\<not> (includesStr (trim (toLowerCase raw)) tokAn
            \<or> includesStr (trim (toLowerCase raw)) tokHitto
            \<or> trim (toLowerCase raw) = ascii ''h'')"
    and "\<not> (includesStr (trim (toLowerCase raw)) tokNiruida
            \<or> trim (toLowerCase raw) = ascii ''2b'')"
    and "includesStr (trim (toLowerCase raw)) tokSanruida \<or> trim (toLowerCase raw) = ascii ''3b''"
  shows "normalizeResult raw = ascii ''3hit''"
  unfolding normalizeResult_def Let_def if_not_P [OF assms(1)] if_not_P [OF assms(2)]
    if_not_P [OF assms(3)] if_P [OF assms(4)] ..

lemma nr_homer:
  assumes "trim raw \<noteq> []"
    and "\<not> (includesStr (trim (toLowerCase raw)) tokAn
            \<or> includesStr (trim (toLowerCase raw)) tokHitto
            \<or> trim (toLowerCase raw) = ascii ''h'')"
    and "\<not> (includesStr (trim (toLowerCase raw)) tokNiruida
            \<or> trim (toLowerCase raw) = ascii ''2b'')"
    and "\<not> (includesStr (trim (toLowerCase raw)) tokSanruida
            \<or> trim (toLowerCase raw) = ascii ''3b'')"
    and "includesStr (trim (toLowerCase raw)) tokHonruida
         \<or> includesStr (trim (toLowerCase raw)) tokHomuran
         \<or> trim (toLowerCase raw) = ascii ''hr''"
  shows "normalizeResult raw = ascii ''homerun''"
  unfolding normalizeResult_def Let_def if_not_P [OF assms(1)] if_not_P [OF assms(2)]
    if_not_P [OF assms(3)] if_not_P [OF assms(4)] if_P [OF assms(5)] ..

text \<open>
  Claim C1, as the code has it. The classifier tests the generic hit first, then the
  double, the triple and the home run, and the first test that succeeds decides: with
  \<open>t\<close> the lower-cased, trimmed text, a text that is not blank is a \<open>hit\<close> when the hit test
  succeeds, a \<open>2hit\<close> when the hit test fails and the double test succeeds, a \<open>3hit\<close> when
  both fail and the triple test succeeds, a \<open>homerun\<close> when the three fail and the home-run
  test succeeds. In particular a text that contains both the double token and one of the
  two generic hit tokens is classified \<open>hit\<close>.
\<close>

theorem normalizeResult_order:
  "(trim raw \<noteq> [] \<longrightarrow>
      (let t = trim (toLowerCase raw);
           hit = (includesStr t tokAn \<or> includesStr t tokHitto \<or> t = ascii ''h'');
           double = (includesStr t tokNiruida \<or> t = ascii ''2b'');
           triple = (includesStr t tokSanruida \<or> t = ascii ''3b'');
           homer = (includesStr t tokHonruida \<or> includesStr t tokHomuran \<or> t = ascii ''hr'')
       in (hit \<longrightarrow> normalizeResult raw = ascii ''hit'')
        \<and> (\<not> hit \<and> double \<longrightarrow> normalizeResult raw = ascii ''2hit'')
        \<and> (\<not> hit \<and> \<not> double \<and> triple \<longrightarrow> normalizeResult raw = ascii ''3hit'')
        \<and> (\<not> hit \<and> \<not> double \<and> \<not> triple \<and> homer
              \<longrightarrow> normalizeResult raw = ascii ''homerun'')))
   \<and> (includesStr raw tokNiruida \<and> (includesStr raw tokAn \<or> includesStr raw tokHitto)
        \<longrightarrow> normalizeResult raw = ascii ''hit'')"
  unfolding Let_def
proof (intro conjI impI)
  assume "trim raw \<noteq> []" and "includesStr (trim (toLowerCase raw)) tokAn
    \<or> includesStr (trim (toLowerCase raw)) tokHitto \<or> trim (toLowerCase raw) = ascii ''h''"
  then show "normalizeResult raw = ascii ''hit''" by (rule nr_hit)
next
  assume "trim raw \<noteq> []" and "\<not> (includesStr (trim (toLowerCase raw)) tokAn
      \<or> includesStr (trim (toLowerCase raw)) tokHitto \<or> trim (toLowerCase raw) = ascii ''h'')
    \<and> (includesStr (trim (toLowerCase raw)) tokNiruida \<or> trim (toLowerCase raw) = ascii ''2b'')"
  then show "normalizeResult raw = ascii ''2hit''" using nr_double [of raw] by blast
next
  assume "trim raw \<noteq> []" and "\<not> (includesStr (trim (toLowerCase raw)) tokAn
      \<or> includesStr (trim (toLowerCase raw)) tokHitto \<or> trim (toLowerCase raw) = ascii ''h'')
    \<and> \<not> (includesStr (trim (toLowerCase raw)) tokNiruida
          \<or> trim (toLowerCase raw) = ascii ''2b'')
    \<and> (includesStr (trim (toLowerCase raw)) tokSanruida \<or> trim (toLowerCase raw) = ascii ''3b'')"
  then show "normalizeResult raw = ascii ''3hit''" using nr_triple [of raw] by blast
next
  assume "trim raw \<noteq> []" and "\<not> (includesStr (trim (toLowerCase raw)) tokAn
      \<or> includesStr (trim (toLowerCase raw)) tokHitto \<or> trim (toLowerCase raw) = ascii ''h'')
    \<and> \<not> (includesStr (trim (toLowerCase raw)) tokNiruida
          \<or> trim (toLowerCase raw) = ascii ''2b'')
    \<and> \<not> (includesStr (trim (toLowerCase raw)) tokSanruida
          \<or> trim (toLowerCase raw) = ascii ''3b'')
    \<and> (includesStr (trim (toLowerCase raw)) tokHonruida
        \<or> includesStr (trim (toLowerCase raw)) tokHomuran
        \<or> trim (toLowerCase raw) = ascii ''hr'')"
  then show "normalizeResult raw = ascii ''homerun''" using nr_homer [of raw] by blast
next
  assume "includesStr raw tokNiruida \<and> (includesStr raw tokAn \<or> includesStr raw tokHitto)"
  then have "(includesStr (trim (toLowerCase raw)) tokAn
               \<or> includesStr (trim (toLowerCase raw)) tokHitto) \<and> trim raw \<noteq> []"
    using tokAn_normal [of raw] tokHitto_normal [of raw] by blast
  then show "normalizeResult raw = ascii ''hit''"
    using nr_hit [of raw] by blast
qed

text \<open>
  The four cases of the theorem at four texts: the double token followed by U+5B89 (the
  hit test succeeds), the double token, the triple token and the home-run token alone.
\<close>

theorem normalizeResult_order_witness:
  "includesStr [0x4E8C, 0x5841, 0x6253, 0x5B89] tokNiruida
   \<and> includesStr [0x4E8C, 0x5841, 0x6253, 0x5B89] tokAn
   \<and> normalizeResult [0x4E8C, 0x5841, 0x6253, 0x5B89] = ascii ''hit''
   \<and> normalizeResult [0x4E8C, 0x5841, 0x6253] = ascii ''2hit''
   \<and> normalizeResult [0x4E09, 0x5841, 0x6253] = ascii ''3hit''
   \<and> normalizeResult [0x672C, 0x5841, 0x6253] = ascii ''homerun''"
proof -
  have a: "includesStr [0x4E8C, 0x5841, 0x6253, 0x5B89] tokNiruida
           \<and> includesStr [0x4E8C, 0x5841, 0x6253, 0x5B89] tokAn"
    by (simp add: tokNiruida_def tokAn_def)
  have t2: "trim (toLowerCase [0x4E8C, 0x5841, 0x6253]) = [0x4E8C, 0x5841, 0x6253]"
           "trim [0x4E8C, 0x5841, 0x6253] \<noteq> []"
    by (simp_all add: trim_def toLowerCase_def toLowerCaseUnit_def isWhiteSpace_def)
  have t3: "trim (toLowerCase [0x4E09, 0x5841, 0x6253]) = [0x4E09, 0x5841, 0x6253]"
           "trim [0x4E09, 0x5841, 0x6253] \<noteq> []"
    by (simp_all add: trim_def toLowerCase_def toLowerCaseUnit_def isWhiteSpace_def)
  have t4: "trim (toLowerCase [0x672C, 0x5841, 0x6253]) = [0x672C, 0x5841, 0x6253]"
           "trim [0x672C, 0x5841, 0x6253] \<noteq> []"
    by (simp_all add: trim_def toLowerCase_def toLowerCaseUnit_def isWhiteSpace_def)
  have b: "normalizeResult [0x4E8C, 0x5841, 0x6253, 0x5B89] = ascii ''hit''"
    using normalizeResult_order [of "[0x4E8C, 0x5841, 0x6253, 0x5B89]"] a by blast
  have c: "normalizeResult [0x4E8C, 0x5841, 0x6253] = ascii ''2hit''"
    using normalizeResult_order [of "[0x4E8C, 0x5841, 0x6253]"] t2
    by (simp add: Let_def tokAn_def tokHitto_def tokNiruida_def ascii_def)
  have d: "normalizeResult [0x4E09, 0x5841, 0x6253] = ascii ''3hit''"
    using normalizeResult_order [of "[0x4E09, 0x5841, 0x6253]"] t3
    by (simp add: Let_def tokAn_def tokHitto_def tokNiruida_def tokSanruida_def ascii_def)
  have e: "normalizeResult [0x672C, 0x5841, 0x6253] = ascii ''homerun''"
    using normalizeResult_order [of "[0x672C, 0x5841, 0x6253]"] t4
    by (simp add: Let_def tokAn_def tokHitto_def tokNiruida_def tokSanruida_def
          tokHonruida_def ascii_def)
  from a b c d e show ?thesis by blast
qed

text \<open>
  Claim C1 as stated asks for the double test first. The text made of the double token
  followed by U+5B89 contains a double token and a generic hit token, and its class is
  \<open>hit\<close>, not \<open>2hit\<close>.
\<close>

theorem normalizeResult_double_with_hit_counterexample:
  "includesStr [0x4E8C, 0x5841, 0x6253, 0x5B89] tokNiruida
   \<and> includesStr [0x4E8C, 0x5841, 0x6253, 0x5B89] tokAn
   \<and> normalizeResult [0x4E8C, 0x5841, 0x6253, 0x5B89] = ascii ''hit''
   \<and> normalizeResult [0x4E8C, 0x5841, 0x6253, 0x5B89] \<noteq> ascii ''2hit''"
  by (simp add: normalize_eval)

section \<open>Properties of the inning cursor\<close>

text \<open>
  Above the first inning \<open>retreat\<close> steps back one half-inning; in the first inning it
  changes nothing, in either half; the inning stays at 1 or above.
\<close>

lemma retreat_above_first:
  assumes "1 < inning gs"
  shows "retreat gs = (if isTopHalf gs then gs\<lparr>isTopHalf := False, inning := inning gs - 1\<rparr>
                       else gs\<lparr>isTopHalf := True\<rparr>)"
  using assms by (simp add: retreat_def)

lemma retreat_in_first_inning: "inning gs \<le> 1 \<Longrightarrow> retreat gs = gs"
  by (simp add: retreat_def)

lemma retreat_floor: "1 \<le> inning gs \<Longrightarrow> 1 \<le> inning (retreat gs)"
  by (simp add: retreat_def)

text \<open>
  Claim C3 asks that stepping back from the bottom half leads to the top half of the same
  inning, whatever the inning. One step forward from the initial state leads to the
  bottom of the first inning, and stepping back from there changes nothing: the first
  test of \<open>retreat\<close> asks for an inning above 1, as the second does.
\<close>

theorem retreat_first_bottom:
  "advance \<lparr>inning = 1, isTopHalf = True, currentBatterIndex = 0, battingStats = []\<rparr>
     = \<lparr>inning = 1, isTopHalf = False, currentBatterIndex = 0, battingStats = []\<rparr>
   \<and> retreat \<lparr>inning = 1, isTopHalf = False, currentBatterIndex = 0, battingStats = []\<rparr>
     = \<lparr>inning = 1, isTopHalf = False, currentBatterIndex = 0, battingStats = []\<rparr>"
  by (simp add: retreat_def advance_def)

section \<open>Properties of the batting ledger\<close>

lemma exampleRoster_entries:
  "objGet (battingStats (gameState exampleRoster)) 0
     = Some \<lparr>hits = 0, atBats = 1, walks = 0, results = [Some tokSanshin]\<rparr>"
  "objGet (battingStats (gameState exampleRoster)) 1 = Some zeroStats"
  "objGet (battingStats (gameState exampleRoster)) 2
     = Some \<lparr>hits = 1, atBats = 1, walks = 0, results = [Some tokAn]\<rparr>"
  "objKeys (battingStats (gameState exampleRoster)) = [0, 1, 2]"
  by (simp_all add: exampleRoster_def objGet_def objKeys_def)

lemma Nil_eq_ascii: "[] = ascii s \<longleftrightarrow> s = []"
  by (auto simp add: ascii_def)

lemma Nil_notin_results:
  "[] \<notin> set hitResults" "[] \<notin> set walkResults" "[] \<notin> set nonAtBatResults"
  by (simp_all add: hitResults_def walkResults_def nonAtBatResults_def Nil_eq_ascii)

lemma normalizeResult_blank: "trim r = [] \<Longrightarrow> normalizeResult r = []"
  by (simp add: normalizeResult_def)

lemma normalizeResult_Nil: "normalizeResult [] = []"
  by (simp add: normalizeResult_def trim_def)

text \<open>The class of a text is the empty one exactly when the text is blank.\<close>

lemma if_not_Nil: "a \<noteq> [] \<Longrightarrow> b \<noteq> [] \<Longrightarrow> (if c then a else b) \<noteq> []"
  by simp

lemma ascii_not_Nil: "s \<noteq> [] \<Longrightarrow> ascii s \<noteq> []"
  by (simp add: ascii_def)

lemma normalizeResult_empty_iff: "normalizeResult r = [] \<longleftrightarrow> trim r = []"
proof
  assume "trim r = []"
  then show "normalizeResult r = []" by (rule normalizeResult_blank)
next
  assume empty: "normalizeResult r = []"
  show "trim r = []"
  proof (rule ccontr)
    assume "trim r \<noteq> []"
    then have "normalizeResult r \<noteq> []"
      unfolding normalizeResult_def Let_def if_not_P [OF \<open>trim r \<noteq> []\<close>]
      by (intro if_not_Nil ascii_not_Nil) simp_all
    with empty show False by contradiction
  qed
qed

lemma updateStatsForResult_hits:
  "hits (updateStatsForResult s r m) = hits s + (if r \<in> set hitResults then m else 0)"
  by (simp add: updateStatsForResult_def Let_def)

lemma updateStatsForResult_atBats:
  "atBats (updateStatsForResult s r m)
     = atBats s + (if r \<noteq> [] \<and> r \<notin> set nonAtBatResults then m else 0)"
  by (simp add: updateStatsForResult_def Let_def)

lemma updateStatsForResult_walks:
  "walks (updateStatsForResult s r m) = walks s + (if r \<in> set walkResults then m else 0)"
  by (simp add: updateStatsForResult_def Let_def)

lemma updateStatsForResult_results:
  "results (updateStatsForResult s r m) = results s"
  by (simp add: updateStatsForResult_def Let_def)

lemmas updateStatsForResult_sel =
  updateStatsForResult_hits updateStatsForResult_atBats updateStatsForResult_walks
  updateStatsForResult_results

lemma applyResult_results:
  "results (applyResult s i r) = arraySet (results s) i r"
  by (simp add: applyResult_def Let_def updateStatsForResult_sel split: option.split)

lemma applyResult_hits:
  "hits (applyResult s i r)
     = max 0 (hits s - hitDelta (arrayGet (results s) i) + hitDelta (Some r))"
  by (simp add: applyResult_def Let_def updateStatsForResult_sel hitDelta_def
        normalizeResult_blank normalizeResult_Nil Nil_notin_results split: option.split)

lemma applyResult_atBats:
  "atBats (applyResult s i r)
     = max 0 (atBats s - atBatDelta (arrayGet (results s) i) + atBatDelta (Some r))"
  by (simp add: applyResult_def Let_def updateStatsForResult_sel atBatDelta_def
        normalizeResult_blank normalizeResult_Nil Nil_notin_results split: option.split)

lemma applyResult_walks:
  "walks (applyResult s i r)
     = max 0 (walks s - walkDelta (arrayGet (results s) i) + walkDelta (Some r))"
  by (simp add: applyResult_def Let_def updateStatsForResult_sel walkDelta_def
        normalizeResult_blank normalizeResult_Nil Nil_notin_results split: option.split)

lemma count_filter_sum:
  "int (length [r \<leftarrow> [r. Some r \<leftarrow> xs]. P r])
     = sum_list (map (\<lambda>slot. case slot of None \<Rightarrow> 0 | Some r \<Rightarrow> if P r then 1 else 0) xs)"
  by (induction xs) (auto split: option.split)

lemma countHits_sum: "countHits s = sum_list (map hitDelta (results s))"
  unfolding countHits_def storedResults_def count_filter_sum hitDelta_def ..

lemma countAtBats_sum: "countAtBats s = sum_list (map atBatDelta (results s))"
  unfolding countAtBats_def storedResults_def count_filter_sum atBatDelta_def ..

lemma countWalks_sum: "countWalks s = sum_list (map walkDelta (results s))"
  unfolding countWalks_def storedResults_def count_filter_sum walkDelta_def ..

lemma sum_list_update_int:
  fixes f :: "'a \<Rightarrow> int"
  shows "i < length xs \<Longrightarrow>
    sum_list (map f (xs[i := y])) = sum_list (map f xs) - f (xs ! i) + f y"
  by (induction xs arbitrary: i) (auto split: nat.split)

lemma sum_list_arraySet:
  fixes f :: "'a option \<Rightarrow> int"
  assumes "f None = 0"
  shows "sum_list (map f (arraySet xs i v))
           = sum_list (map f xs) - f (arrayGet xs i) + f (Some v)"
proof (cases "i < length xs")
  case True
  then show ?thesis
    by (simp add: arraySet_def arrayGet_def sum_list_update_int)
next
  case False
  have "sum_list (map f (replicate (i - length xs) None)) = 0"
    using assms by (induction "i - length xs" arbitrary: i) (simp_all add: map_replicate_const sum_list_replicate)
  with False assms show ?thesis
    by (simp add: arraySet_def arrayGet_def)
qed

lemma delta_None: "hitDelta None = 0" "atBatDelta None = 0" "walkDelta None = 0"
  by (simp_all add: hitDelta_def atBatDelta_def walkDelta_def)

lemma count_nonneg: "0 \<le> countHits s" "0 \<le> countAtBats s" "0 \<le> countWalks s"
  by (simp_all add: countHits_def countAtBats_def countWalks_def)

lemma countHits_applyResult:
  "countHits (applyResult s i r)
     = countHits s - hitDelta (arrayGet (results s) i) + hitDelta (Some r)"
  by (simp add: countHits_sum applyResult_results sum_list_arraySet delta_None)

lemma countAtBats_applyResult:
  "countAtBats (applyResult s i r)
     = countAtBats s - atBatDelta (arrayGet (results s) i) + atBatDelta (Some r)"
  by (simp add: countAtBats_sum applyResult_results sum_list_arraySet delta_None)

lemma countWalks_applyResult:
  "countWalks (applyResult s i r)
     = countWalks s - walkDelta (arrayGet (results s) i) + walkDelta (Some r)"
  by (simp add: countWalks_sum applyResult_results sum_list_arraySet delta_None)

lemma applyResult_keeps_counters:
  assumes "hits s = countHits s \<and> atBats s = countAtBats s \<and> walks s = countWalks s"
  shows "hits (applyResult s i r) = countHits (applyResult s i r)
       \<and> atBats (applyResult s i r) = countAtBats (applyResult s i r)
       \<and> walks (applyResult s i r) = countWalks (applyResult s i r)"
proof (intro conjI)
  have "hits (applyResult s i r) = max 0 (countHits (applyResult s i r))"
    using assms by (simp add: applyResult_hits countHits_applyResult)
  then show "hits (applyResult s i r) = countHits (applyResult s i r)"
    using count_nonneg(1) [of "applyResult s i r"] by simp
  have "atBats (applyResult s i r) = max 0 (countAtBats (applyResult s i r))"
    using assms by (simp add: applyResult_atBats countAtBats_applyResult)
  then show "atBats (applyResult s i r) = countAtBats (applyResult s i r)"
    using count_nonneg(2) [of "applyResult s i r"] by simp
  have "walks (applyResult s i r) = max 0 (countWalks (applyResult s i r))"
    using assms by (simp add: applyResult_walks countWalks_applyResult)
  then show "walks (applyResult s i r) = countWalks (applyResult s i r)"
    using count_nonneg(3) [of "applyResult s i r"] by simp
qed

lemma applyResults_keeps_counters:
  "hits s = countHits s \<and> atBats s = countAtBats s \<and> walks s = countWalks s \<Longrightarrow>
   hits (applyResults s edits) = countHits (applyResults s edits)
   \<and> atBats (applyResults s edits) = countAtBats (applyResults s edits)
   \<and> walks (applyResults s edits) = countWalks (applyResults s edits)"
proof (induction edits arbitrary: s)
  case Nil
  then show ?case by simp
next
  case (Cons e edits)
  obtain i r where e: "e = (i, r)" by (cases e)
  from Cons.prems have "hits (applyResult s i r) = countHits (applyResult s i r)
       \<and> atBats (applyResult s i r) = countAtBats (applyResult s i r)
       \<and> walks (applyResult s i r) = countWalks (applyResult s i r)"
    by (rule applyResult_keeps_counters)
  then show ?case
    unfolding e applyResults.simps by (rule Cons.IH)
qed

lemma arrayGet_arraySet: "arrayGet (arraySet xs i v) i = Some v"
  by (simp add: arrayGet_def arraySet_def nth_append)

lemma arraySet_arraySet: "arraySet (arraySet xs i v) i v = arraySet xs i v"
  by (simp add: arraySet_def list_update_append)

lemma applyResult_twice:
  "applyResult (applyResult s i r) i r = applyResult s i r"
proof (rule BattingStats.equality)
  show "hits (applyResult (applyResult s i r) i r) = hits (applyResult s i r)"
    by (simp add: applyResult_hits [of "applyResult s i r"] applyResult_results arrayGet_arraySet)
       (simp add: applyResult_hits)
  show "atBats (applyResult (applyResult s i r) i r) = atBats (applyResult s i r)"
    by (simp add: applyResult_atBats [of "applyResult s i r"] applyResult_results arrayGet_arraySet)
       (simp add: applyResult_atBats)
  show "walks (applyResult (applyResult s i r) i r) = walks (applyResult s i r)"
    by (simp add: applyResult_walks [of "applyResult s i r"] applyResult_results arrayGet_arraySet)
       (simp add: applyResult_walks)
  show "results (applyResult (applyResult s i r) i r) = results (applyResult s i r)"
    by (simp add: applyResult_results arraySet_arraySet)
qed simp

lemma objGet_objSet:
  "objGet (objSet obj k v) k' = (if k' = k then v else objGet obj k')"
  by (simp add: objGet_def objSet_def update_conv')

lemma objSet_others:
  "[e \<leftarrow> objSet obj k v. fst e \<noteq> k] = [e \<leftarrow> obj. fst e \<noteq> k]"
  unfolding objSet_def by (induction obj) auto

lemma objSet_objSet: "objSet (objSet obj k v') k v = objSet obj k v"
  by (simp add: objSet_def)

lemma updateBattingResult_fields:
  "inning (updateBattingResult p i r gs) = inning gs"
  "isTopHalf (updateBattingResult p i r gs) = isTopHalf gs"
  "currentBatterIndex (updateBattingResult p i r gs) = currentBatterIndex gs"
  by (simp_all add: updateBattingResult_def Let_def)

lemma updateBattingResult_battingStats:
  "battingStats (updateBattingResult p i r gs)
     = objSet (battingStats gs) p
         (Some (applyResult (case objGet (battingStats gs) p of None \<Rightarrow> zeroStats | Some s \<Rightarrow> s)
                  i r))"
  by (cases "objGet (battingStats gs) p")
     (simp_all add: updateBattingResult_def Let_def objGet_objSet objSet_objSet)

lemma entryOf_updateBattingResult:
  "entryOf (updateBattingResult p i r gs) p = applyResult (entryOf gs p) i r"
  by (simp add: entryOf_def updateBattingResult_battingStats objGet_objSet)

lemma entryOf_updateBattingResults:
  "entryOf (updateBattingResults p gs edits) p = applyResults (entryOf gs p) edits"
proof (induction edits arbitrary: gs)
  case Nil
  show ?case by simp
next
  case (Cons e edits)
  obtain i r where e: "e = (i, r)" by (cases e)
  show ?case
    unfolding e by (simp add: Cons.IH entryOf_updateBattingResult)
qed

lemma zeroStats_counters:
  "hits zeroStats = countHits zeroStats \<and> atBats zeroStats = countAtBats zeroStats
   \<and> walks zeroStats = countWalks zeroStats"
  by (simp add: zeroStats_def countHits_def countAtBats_def countWalks_def storedResults_def)

text \<open>
  Claim C2. After any run of slot edits on an entry that starts with the three counters
  at zero and no result, each counter equals the value recomputed from the stored
  results: \<open>hits\<close> the number of results classified \<open>hit\<close>, \<open>2hit\<close>, \<open>3hit\<close> or
  \<open>homerun\<close>; \<open>atBats\<close> the number of results that are not blank and are classified
  outside \<open>walk\<close>, \<open>hbp\<close>, \<open>sacrifice_bunt\<close>, \<open>sacrifice_fly\<close>; \<open>walks\<close> the number
  classified \<open>walk\<close> or \<open>hbp\<close>. The same holds for the entry of a
  player in the game state after any run of \<open>updateBattingResult\<close> for that player,
  when the player starts with no entry or the zero entry.
\<close>

theorem counters_equal_recount:
  "(hits (applyResults zeroStats edits) = countHits (applyResults zeroStats edits)
    \<and> atBats (applyResults zeroStats edits) = countAtBats (applyResults zeroStats edits)
    \<and> walks (applyResults zeroStats edits) = countWalks (applyResults zeroStats edits))
   \<and> (entryOf gs p = zeroStats \<longrightarrow>
        hits (entryOf (updateBattingResults p gs edits) p)
          = countHits (entryOf (updateBattingResults p gs edits) p)
        \<and> atBats (entryOf (updateBattingResults p gs edits) p)
          = countAtBats (entryOf (updateBattingResults p gs edits) p)
        \<and> walks (entryOf (updateBattingResults p gs edits) p)
          = countWalks (entryOf (updateBattingResults p gs edits) p))"
proof (intro conjI impI)
  note inv = applyResults_keeps_counters [OF zeroStats_counters, of edits]
  show "hits (applyResults zeroStats edits) = countHits (applyResults zeroStats edits)"
    using inv by (rule conjunct1)
  show "atBats (applyResults zeroStats edits) = countAtBats (applyResults zeroStats edits)"
    using inv by simp
  show "walks (applyResults zeroStats edits) = countWalks (applyResults zeroStats edits)"
    using inv by simp
  assume zero: "entryOf gs p = zeroStats"
  show "hits (entryOf (updateBattingResults p gs edits) p)
          = countHits (entryOf (updateBattingResults p gs edits) p)"
    unfolding entryOf_updateBattingResults zero using inv by (rule conjunct1)
  show "atBats (entryOf (updateBattingResults p gs edits) p)
          = countAtBats (entryOf (updateBattingResults p gs edits) p)"
    unfolding entryOf_updateBattingResults zero using inv by simp
  show "walks (entryOf (updateBattingResults p gs edits) p)
          = countWalks (entryOf (updateBattingResults p gs edits) p)"
    unfolding entryOf_updateBattingResults zero using inv by simp
qed

text \<open>Three edits of the second example player, who starts from the zero entry.\<close>

theorem counters_equal_recount_witness:
  "entryOf (gameState exampleRoster) 1 = zeroStats
   \<and> hits (entryOf (updateBattingResults 1 (gameState exampleRoster)
                      [(2, tokAn), (0, tokSanshin), (2, tokShikyuWalk)]) 1)
       = countHits (entryOf (updateBattingResults 1 (gameState exampleRoster)
                      [(2, tokAn), (0, tokSanshin), (2, tokShikyuWalk)]) 1)
   \<and> atBats (entryOf (updateBattingResults 1 (gameState exampleRoster)
                      [(2, tokAn), (0, tokSanshin), (2, tokShikyuWalk)]) 1)
       = countAtBats (entryOf (updateBattingResults 1 (gameState exampleRoster)
                      [(2, tokAn), (0, tokSanshin), (2, tokShikyuWalk)]) 1)
   \<and> walks (entryOf (updateBattingResults 1 (gameState exampleRoster)
                      [(2, tokAn), (0, tokSanshin), (2, tokShikyuWalk)]) 1)
       = countWalks (entryOf (updateBattingResults 1 (gameState exampleRoster)
                      [(2, tokAn), (0, tokSanshin), (2, tokShikyuWalk)]) 1)"
proof -
  have zero: "entryOf (gameState exampleRoster) 1 = zeroStats"
    unfolding entryOf_def exampleRoster_entries by simp
  from zero
    counters_equal_recount [of "[(2, tokAn), (0, tokSanshin), (2, tokShikyuWalk)]"
      "gameState exampleRoster" 1, THEN conjunct2, rule_format, OF zero]
  show ?thesis by (rule conjI)
qed

text \<open>
  Claim C10. \<open>updateBattingResult\<close> leaves at \<open>playerIndex\<close> the edited entry, starting
  from the all-zero entry with no result when none was there. Every other key reads as
  before, the properties under the other keys are the same list as before, and the
  inning, the half and the current batter are unchanged.
\<close>

theorem updateBattingResult_frame:
  "objGet (battingStats (updateBattingResult p i r gs)) p
     = Some (applyResult (case objGet (battingStats gs) p of None \<Rightarrow> zeroStats | Some s \<Rightarrow> s)
               i r)
   \<and> (\<forall>k. k \<noteq> p \<longrightarrow>
         objGet (battingStats (updateBattingResult p i r gs)) k = objGet (battingStats gs) k)
   \<and> [e \<leftarrow> battingStats (updateBattingResult p i r gs). fst e \<noteq> p]
       = [e \<leftarrow> battingStats gs. fst e \<noteq> p]
   \<and> inning (updateBattingResult p i r gs) = inning gs
   \<and> isTopHalf (updateBattingResult p i r gs) = isTopHalf gs
   \<and> currentBatterIndex (updateBattingResult p i r gs) = currentBatterIndex gs"
  by (simp add: updateBattingResult_fields updateBattingResult_battingStats objGet_objSet
        objSet_others)

text \<open>With two players, an edit of the first leaves the entry of the second.\<close>

theorem updateBattingResult_frame_witness:
  "(1::nat) \<noteq> 0
   \<and> objGet (battingStats (updateBattingResult 0 0 tokSanshin
        \<lparr>inning = 1, isTopHalf = True, currentBatterIndex = 0,
         battingStats = [(0, Some zeroStats), (1, Some zeroStats)]\<rparr>)) 1 = Some zeroStats"
  using updateBattingResult_frame [of 0 0 tokSanshin
        "\<lparr>inning = 1, isTopHalf = True, currentBatterIndex = 0,
         battingStats = [(0, Some zeroStats), (1, Some zeroStats)]\<rparr>"]
  by (simp add: objGet_def)

text \<open>
  Claim C4. Storing the same text in the same slot a second time changes nothing: the
  entry, and so its three counters, is the one the first edit left, and so is the whole
  game state.
\<close>

theorem updateBattingResult_twice:
  "applyResult (applyResult s i r) i r = applyResult s i r
   \<and> updateBattingResult p i r (updateBattingResult p i r gs) = updateBattingResult p i r gs"
proof
  show "applyResult (applyResult s i r) i r = applyResult s i r"
    by (rule applyResult_twice)
next
  have "battingStats (updateBattingResult p i r (updateBattingResult p i r gs))
          = battingStats (updateBattingResult p i r gs)"
    by (simp add: updateBattingResult_battingStats [of p i r "updateBattingResult p i r gs"]
          objGet_objSet applyResult_twice objSet_objSet
          updateBattingResult_battingStats [of p i r gs])
  then show "updateBattingResult p i r (updateBattingResult p i r gs)
               = updateBattingResult p i r gs"
    by (intro GameState.equality) (simp_all add: updateBattingResult_fields)
qed

lemmas classify_eval =
  normalizeResult_def trim_def toLowerCase_def toLowerCaseUnit_def isWhiteSpace_def ascii_def
  tokAn_def tokHitto_def tokNiruida_def tokSanruida_def tokHonruida_def tokHomuran_def
  tokSanshin_def tokShikyuWalk_def

lemma normalizeResult_sanshin: "normalizeResult tokSanshin = ascii ''strikeout''"
  by (simp add: classify_eval)

lemma normalizeResult_saan: "normalizeResult [0x5DE6, 0x5B89] = ascii ''hit''"
  by (simp add: classify_eval)

lemma normalizeResult_shikyu: "normalizeResult tokShikyuWalk = ascii ''walk''"
  by (simp add: classify_eval)

lemmas label_sets = hitResults_def walkResults_def nonAtBatResults_def ascii_eq_iff
  ascii_Nil_iff Nil_eq_ascii

lemmas applyResult_sel = applyResult_hits applyResult_atBats applyResult_walks
  applyResult_results

lemmas scenario_eval = applyResult_sel hitDelta_def atBatDelta_def walkDelta_def
  arrayGet_def arraySet_def zeroStats_def normalizeResult_sanshin normalizeResult_saan
  normalizeResult_shikyu normalizeResult_Nil label_sets

lemma scenario_step1:
  "applyResult zeroStats 0 tokSanshin
     = \<lparr>hits = 0, atBats = 1, walks = 0, results = [Some tokSanshin]\<rparr>"
  by (rule BattingStats.equality) (simp_all add: scenario_eval)

lemma scenario_step2:
  "applyResult \<lparr>hits = 0, atBats = 1, walks = 0, results = [Some tokSanshin]\<rparr> 1 [0x5DE6, 0x5B89]
     = \<lparr>hits = 1, atBats = 2, walks = 0, results = [Some tokSanshin, Some [0x5DE6, 0x5B89]]\<rparr>"
  by (rule BattingStats.equality) (simp_all add: scenario_eval)

lemma scenario_step3:
  "applyResult \<lparr>hits = 1, atBats = 2, walks = 0,
                results = [Some tokSanshin, Some [0x5DE6, 0x5B89]]\<rparr> 2 []
     = \<lparr>hits = 1, atBats = 2, walks = 0,
        results = [Some tokSanshin, Some [0x5DE6, 0x5B89], Some []]\<rparr>"
  by (rule BattingStats.equality) (simp_all add: scenario_eval)

lemma scenario_step4:
  "applyResult \<lparr>hits = 1, atBats = 2, walks = 0,
                results = [Some tokSanshin, Some [0x5DE6, 0x5B89], Some []]\<rparr> 3 []
     = \<lparr>hits = 1, atBats = 2, walks = 0,
        results = [Some tokSanshin, Some [0x5DE6, 0x5B89], Some [], Some []]\<rparr>"
  by (rule BattingStats.equality) (simp_all add: scenario_eval)

lemma scenario_step5:
  "applyResult \<lparr>hits = 1, atBats = 2, walks = 0,
                results = [Some tokSanshin, Some [0x5DE6, 0x5B89], Some [], Some []]\<rparr>
       0 tokShikyuWalk
     = \<lparr>hits = 1, atBats = 1, walks = 1,
        results = [Some tokShikyuWalk, Some [0x5DE6, 0x5B89], Some [], Some []]\<rparr>"
  by (rule BattingStats.equality) (simp_all add: scenario_eval)

lemma updateBattingResult_entry:
  "objGet (battingStats gs) p = Some s \<Longrightarrow>
   objGet (battingStats (updateBattingResult p i r gs)) p = Some (applyResult s i r)"
  by (simp add: updateBattingResult_battingStats objGet_objSet)

text \<open>
  Claim C5. The deltas of \<open>updateStatsForResult\<close>: the at-bats move by the multiplier
  for every class that is not empty and not one of \<open>walk\<close>, \<open>hbp\<close>, \<open>sacrifice_bunt\<close>,
  \<open>sacrifice_fly\<close> (so for \<open>custom\<close>, \<open>error\<close>, \<open>grounder\<close>, \<open>fly\<close>, \<open>strikeout\<close> and
  the four hits) and stay for those four; the hits move for the four hit classes only;
  the walks move for \<open>walk\<close> and \<open>hbp\<close> only; the empty class changes nothing. The
  scenario: a fresh player whose four slots receive U+4E09 U+632F, U+5DE6 U+5B89 and two
  empty texts has 1 hit, 2 at-bats and no walk; writing U+56DB U+7403 over the first slot
  then gives 1 hit, 1 at-bat and 1 walk.
\<close>

theorem counter_delta_rule:
  "atBats (updateStatsForResult s r m)
     = atBats s + (if r \<noteq> [] \<and> r \<notin> set nonAtBatResults then m else 0)
   \<and> hits (updateStatsForResult s r m) = hits s + (if r \<in> set hitResults then m else 0)
   \<and> walks (updateStatsForResult s r m) = walks s + (if r \<in> set walkResults then m else 0)
   \<and> results (updateStatsForResult s r m) = results s
   \<and> (\<forall>x \<in> set nonAtBatResults. atBats (updateStatsForResult s x m) = atBats s)
   \<and> (\<forall>x \<in> set [ascii ''custom'', ascii ''error'', ascii ''grounder'', ascii ''fly'',
                  ascii ''strikeout'', ascii ''hit'', ascii ''2hit'', ascii ''3hit'',
                  ascii ''homerun''].
         atBats (updateStatsForResult s x m) = atBats s + m)
   \<and> (\<forall>x \<in> set hitResults. hits (updateStatsForResult s x m) = hits s + m)
   \<and> (\<forall>x \<in> set walkResults. walks (updateStatsForResult s x m) = walks s + m)
   \<and> updateStatsForResult s [] m = s
   \<and> (let fresh = \<lparr>inning = 1, isTopHalf = True, currentBatterIndex = 0,
                    battingStats = [(0, Some zeroStats)]\<rparr>;
           played = updateBattingResult 0 3 [] (updateBattingResult 0 2 []
                      (updateBattingResult 0 1 [0x5DE6, 0x5B89]
                        (updateBattingResult 0 0 tokSanshin fresh)));
           edited = updateBattingResult 0 0 tokShikyuWalk played
       in objGet (battingStats played) 0
            = Some \<lparr>hits = 1, atBats = 2, walks = 0,
                    results = [Some tokSanshin, Some [0x5DE6, 0x5B89], Some [], Some []]\<rparr>
        \<and> objGet (battingStats edited) 0
            = Some \<lparr>hits = 1, atBats = 1, walks = 1,
                    results = [Some tokShikyuWalk, Some [0x5DE6, 0x5B89], Some [], Some []]\<rparr>)"
proof (intro conjI)
  show "atBats (updateStatsForResult s r m)
     = atBats s + (if r \<noteq> [] \<and> r \<notin> set nonAtBatResults then m else 0)"
    by (rule updateStatsForResult_atBats)
  show "hits (updateStatsForResult s r m) = hits s + (if r \<in> set hitResults then m else 0)"
    by (rule updateStatsForResult_hits)
  show "walks (updateStatsForResult s r m) = walks s + (if r \<in> set walkResults then m else 0)"
    by (rule updateStatsForResult_walks)
  show "results (updateStatsForResult s r m) = results s"
    by (rule updateStatsForResult_results)
  show "\<forall>x \<in> set nonAtBatResults. atBats (updateStatsForResult s x m) = atBats s"
    by (simp add: updateStatsForResult_atBats)
  show "\<forall>x \<in> set [ascii ''custom'', ascii ''error'', ascii ''grounder'', ascii ''fly'',
                  ascii ''strikeout'', ascii ''hit'', ascii ''2hit'', ascii ''3hit'',
                  ascii ''homerun''].
         atBats (updateStatsForResult s x m) = atBats s + m"
    by (simp add: updateStatsForResult_atBats label_sets)
  show "\<forall>x \<in> set hitResults. hits (updateStatsForResult s x m) = hits s + m"
    by (simp add: updateStatsForResult_hits)
  show "\<forall>x \<in> set walkResults. walks (updateStatsForResult s x m) = walks s + m"
    by (simp add: updateStatsForResult_walks)
  show "updateStatsForResult s [] m = s"
    by (simp add: updateStatsForResult_def Let_def Nil_notin_results)
  define fresh where "fresh = \<lparr>inning = 1, isTopHalf = True, currentBatterIndex = 0,
                    battingStats = [(0, Some zeroStats)]\<rparr>"
  have 0: "objGet (battingStats fresh) 0 = Some zeroStats"
    by (simp add: fresh_def objGet_def)
  note 1 = updateBattingResult_entry [OF 0, of 0 tokSanshin, unfolded scenario_step1]
  note 2 = updateBattingResult_entry [OF 1, of 1 "[0x5DE6, 0x5B89]", unfolded scenario_step2]
  note 3 = updateBattingResult_entry [OF 2, of 2 "[]", unfolded scenario_step3]
  note 4 = updateBattingResult_entry [OF 3, of 3 "[]", unfolded scenario_step4]
  note 5 = updateBattingResult_entry [OF 4, of 0 tokShikyuWalk, unfolded scenario_step5]
  from 4 5 show "let fresh = \<lparr>inning = 1, isTopHalf = True, currentBatterIndex = 0,
                    battingStats = [(0, Some zeroStats)]\<rparr>;
           played = updateBattingResult 0 3 [] (updateBattingResult 0 2 []
                      (updateBattingResult 0 1 [0x5DE6, 0x5B89]
                        (updateBattingResult 0 0 tokSanshin fresh)));
           edited = updateBattingResult 0 0 tokShikyuWalk played
       in objGet (battingStats played) 0
            = Some \<lparr>hits = 1, atBats = 2, walks = 0,
                    results = [Some tokSanshin, Some [0x5DE6, 0x5B89], Some [], Some []]\<rparr>
        \<and> objGet (battingStats edited) 0
            = Some \<lparr>hits = 1, atBats = 1, walks = 1,
                    results = [Some tokShikyuWalk, Some [0x5DE6, 0x5B89], Some [], Some []]\<rparr>"
    unfolding Let_def fresh_def by (rule conjI)
qed

text \<open>The rule at the classes \<open>strikeout\<close>, \<open>walk\<close> and \<open>2hit\<close>, on the zero entry.\<close>

theorem counter_delta_rule_witness:
  "ascii ''strikeout'' \<in> set [ascii ''custom'', ascii ''error'', ascii ''grounder'',
       ascii ''fly'', ascii ''strikeout'', ascii ''hit'', ascii ''2hit'', ascii ''3hit'',
       ascii ''homerun'']
   \<and> atBats (updateStatsForResult zeroStats (ascii ''strikeout'') 1) = 1
   \<and> ascii ''walk'' \<in> set nonAtBatResults \<and> ascii ''walk'' \<in> set walkResults
   \<and> atBats (updateStatsForResult zeroStats (ascii ''walk'') 1) = 0
   \<and> walks (updateStatsForResult zeroStats (ascii ''walk'') 1) = 1
   \<and> ascii ''2hit'' \<in> set hitResults
   \<and> hits (updateStatsForResult zeroStats (ascii ''2hit'') 1) = 1"
  using counter_delta_rule [of zeroStats "ascii ''strikeout''" 1]
  by (simp add: label_sets zeroStats_def)

section \<open>Properties of the roster\<close>

lemma filter_index_take_drop:
  "map fst (filter (\<lambda>(p, i). i \<noteq> index) (zip ps [0..<length ps]))
     = take index ps @ drop (Suc index) ps"
proof (induction ps rule: rev_induct)
  case Nil
  show ?case by simp
next
  case (snoc x ps)
  have "zip (ps @ [x]) [0..<length (ps @ [x])] = zip ps [0..<length ps] @ [(x, length ps)]"
    by simp
  then have step: "map fst (filter (\<lambda>(p, i). i \<noteq> index) (zip (ps @ [x]) [0..<length (ps @ [x])]))
      = take index ps @ drop (Suc index) ps @ (if length ps = index then [] else [x])"
    using snoc by simp
  consider "index < length ps" | "index = length ps" | "length ps < index"
    by linarith
  then have "take index (ps @ [x]) @ drop (Suc index) (ps @ [x])
      = take index ps @ drop (Suc index) ps @ (if length ps = index then [] else [x])"
    by cases simp_all
  with step show ?case by simp
qed

lemma objGet_rekey:
  "objGet (rekey index old x acc) k =
     (if x < index \<and> k = x then objGet old x
      else if index < x \<and> Suc k = x then objGet old x
      else objGet acc k)"
  by (auto simp add: rekey_def objGet_objSet)

lemma objGet_fold_rekey:
  "objGet (fold (rekey index old) ks acc) k =
     (if k < index \<and> k \<in> set ks then objGet old k
      else if index \<le> k \<and> Suc k \<in> set ks then objGet old (Suc k)
      else objGet acc k)"
proof (induction ks arbitrary: acc)
  case Nil
  show ?case by simp
next
  case (Cons x ks)
  show ?case
    by (simp add: Cons.IH objGet_rekey) auto
qed

lemma objGet_Nil: "objGet [] k = None"
  by (simp add: objGet_def)

lemma objKeys_Nil: "objKeys [] = []"
  by (simp add: objKeys_def)

lemma objGet_absent: "k \<notin> set (objKeys obj) \<Longrightarrow> objGet obj k = None"
  by (simp add: objGet_def objKeys_def map_of_eq_None_iff [THEN iffD2])

lemma objKeys_objSet: "set (objKeys (objSet obj k v)) = insert k (set (objKeys obj))"
  using dom_update [of k v obj] by (simp add: objKeys_def objSet_def)

lemma objKeys_fold_rekey:
  "set (objKeys (fold (rekey index old) ks acc))
     = set (objKeys acc) \<union> {k. k < index \<and> k \<in> set ks} \<union> {k. index \<le> k \<and> Suc k \<in> set ks}"
proof (induction ks arbitrary: acc)
  case Nil
  show ?case by simp
next
  case (Cons x ks)
  have "set (objKeys (rekey index old x acc))
          = set (objKeys acc) \<union> {k. k < index \<and> k = x} \<union> {k. index \<le> k \<and> Suc k = x}"
    by (auto simp add: rekey_def objKeys_objSet)
  then show ?case
    by (simp add: Cons.IH) blast
qed

lemma deletePlayer_cancelled:
  "index < length (players st) \<Longrightarrow> deletePlayer index False st = Inr st"
  by (simp add: deletePlayer_def)

lemma deletePlayer_no_player:
  "length (players st) \<le> index \<Longrightarrow> deletePlayer index confirmed st = Inl TypeError"
  by (simp add: deletePlayer_def)

text \<open>
  Claim C6. Deleting the player at a roster index, once confirmed, removes that player
  from the list; every entry below the index reads as before, every entry above it is
  read one key lower, and the keys of the new object are the old keys below the index
  and the old keys above it moved down by one, so the entry of the index itself is gone.
  The other fields of the game state are unchanged.
\<close>

theorem deletePlayer_rekeys:
  assumes "index < length (players st)"
  shows "\<exists>st'. deletePlayer index True st = Inr st'
     \<and> players st' = take index (players st) @ drop (Suc index) (players st)
     \<and> (\<forall>k. k < index \<longrightarrow>
           objGet (battingStats (gameState st')) k = objGet (battingStats (gameState st)) k)
     \<and> (\<forall>k. index < k \<longrightarrow>
           objGet (battingStats (gameState st')) (k - 1) = objGet (battingStats (gameState st)) k)
     \<and> (\<forall>k. k \<in> set (objKeys (battingStats (gameState st'))) \<longleftrightarrow>
           (k < index \<and> k \<in> set (objKeys (battingStats (gameState st))))
           \<or> (index \<le> k \<and> Suc k \<in> set (objKeys (battingStats (gameState st)))))
     \<and> inning (gameState st') = inning (gameState st)
     \<and> isTopHalf (gameState st') = isTopHalf (gameState st)
     \<and> currentBatterIndex (gameState st') = currentBatterIndex (gameState st)"
proof -
  define old where "old = battingStats (gameState st)"
  define new where "new = fold (rekey index old) (objKeys old) []"
  define st' where "st' = st\<lparr>players := take index (players st) @ drop (Suc index) (players st),
                    gameState := (gameState st)\<lparr>battingStats := new\<rparr>\<rparr>"
  have del: "deletePlayer index True st = Inr st'"
    using assms
    by (simp add: deletePlayer_def Let_def filter_index_take_drop st'_def new_def old_def)
  have get: "objGet new k = (if k < index then objGet old k else objGet old (Suc k))" for k
    using objGet_absent [of k old] objGet_absent [of "Suc k" old]
    by (auto simp add: new_def objGet_fold_rekey objGet_Nil)
  have low: "\<forall>k. k < index \<longrightarrow> objGet new k = objGet old k"
    by (simp add: get)
  have high: "\<forall>k. index < k \<longrightarrow> objGet new (k - 1) = objGet old k"
    by (auto simp add: get)
  have keys: "\<forall>k. k \<in> set (objKeys new) \<longleftrightarrow>
      (k < index \<and> k \<in> set (objKeys old)) \<or> (index \<le> k \<and> Suc k \<in> set (objKeys old))"
    unfolding new_def objKeys_fold_rekey by (simp add: objKeys_Nil)
  show ?thesis
    using del low high keys by (intro exI [of _ st']) (simp add: st'_def old_def)
qed


text \<open>Deleting the second of the three example players.\<close>

theorem deletePlayer_rekeys_witness:
  "1 < length (players exampleRoster)
   \<and> (\<exists>st'. deletePlayer 1 True exampleRoster = Inr st'
         \<and> map name (players st') = [ascii ''A'', ascii ''C'']
         \<and> objGet (battingStats (gameState st')) 0
             = Some \<lparr>hits = 0, atBats = 1, walks = 0, results = [Some tokSanshin]\<rparr>
         \<and> objGet (battingStats (gameState st')) 1
             = Some \<lparr>hits = 1, atBats = 1, walks = 0, results = [Some tokAn]\<rparr>
         \<and> 2 \<notin> set (objKeys (battingStats (gameState st'))))"
proof -
  have len: "1 < length (players exampleRoster)"
    by (simp add: exampleRoster_def)
  from deletePlayer_rekeys [OF len] obtain st' where big:
    "deletePlayer 1 True exampleRoster = Inr st'
     \<and> players st' = take 1 (players exampleRoster) @ drop (Suc 1) (players exampleRoster)
     \<and> (\<forall>k. k < 1 \<longrightarrow>
           objGet (battingStats (gameState st')) k
             = objGet (battingStats (gameState exampleRoster)) k)
     \<and> (\<forall>k. 1 < k \<longrightarrow>
           objGet (battingStats (gameState st')) (k - 1)
             = objGet (battingStats (gameState exampleRoster)) k)
     \<and> (\<forall>k. k \<in> set (objKeys (battingStats (gameState st'))) \<longleftrightarrow>
           (k < 1 \<and> k \<in> set (objKeys (battingStats (gameState exampleRoster))))
           \<or> (1 \<le> k \<and> Suc k \<in> set (objKeys (battingStats (gameState exampleRoster)))))
     \<and> inning (gameState st') = inning (gameState exampleRoster)
     \<and> isTopHalf (gameState st') = isTopHalf (gameState exampleRoster)
     \<and> currentBatterIndex (gameState st') = currentBatterIndex (gameState exampleRoster)" ..
  note del = big [THEN conjunct1]
  note pl = big [THEN conjunct2, THEN conjunct1]
  note low = big [THEN conjunct2, THEN conjunct2, THEN conjunct1, rule_format]
  note high = big [THEN conjunct2, THEN conjunct2, THEN conjunct2, THEN conjunct1, rule_format]
  note keys = big [THEN conjunct2, THEN conjunct2, THEN conjunct2, THEN conjunct2,
    THEN conjunct1, rule_format]
  have a: "map name (players st') = [ascii ''A'', ascii ''C'']"
    unfolding pl by (simp add: exampleRoster_def)
  have b: "objGet (battingStats (gameState st')) 0
             = Some \<lparr>hits = 0, atBats = 1, walks = 0, results = [Some tokSanshin]\<rparr>"
    using low [of 0] exampleRoster_entries(1) by simp
  have c: "objGet (battingStats (gameState st')) 1
             = Some \<lparr>hits = 1, atBats = 1, walks = 0, results = [Some tokAn]\<rparr>"
    using high [of 2] exampleRoster_entries(3) by simp
  have d: "2 \<notin> set (objKeys (battingStats (gameState st')))"
    using keys [of 2] exampleRoster_entries(4) by simp
  have "deletePlayer 1 True exampleRoster = Inr st'
         \<and> map name (players st') = [ascii ''A'', ascii ''C'']
         \<and> objGet (battingStats (gameState st')) 0
             = Some \<lparr>hits = 0, atBats = 1, walks = 0, results = [Some tokSanshin]\<rparr>
         \<and> objGet (battingStats (gameState st')) 1
             = Some \<lparr>hits = 1, atBats = 1, walks = 0, results = [Some tokAn]\<rparr>
         \<and> 2 \<notin> set (objKeys (battingStats (gameState st')))"
    using del a b c d by simp
  then have "\<exists>st'. deletePlayer 1 True exampleRoster = Inr st'
         \<and> map name (players st') = [ascii ''A'', ascii ''C'']
         \<and> objGet (battingStats (gameState st')) 0
             = Some \<lparr>hits = 0, atBats = 1, walks = 0, results = [Some tokSanshin]\<rparr>
         \<and> objGet (battingStats (gameState st')) 1
             = Some \<lparr>hits = 1, atBats = 1, walks = 0, results = [Some tokAn]\<rparr>
         \<and> 2 \<notin> set (objKeys (battingStats (gameState st')))"
    by (rule exI [where x = st'])
  with len show ?thesis by (rule conjI)
qed

text \<open>At either end of the roster the step is refused and the state stays.\<close>

lemma movePlayer_at_edge:
  "(dir = Up \<and> index = 0) \<or> (dir = Down \<and> length (players st) \<le> Suc index)
   \<Longrightarrow> movePlayer index dir st = Some st"
  by (auto simp add: movePlayer_def)

text \<open>
  Claim C7. One step of \<open>movePlayer\<close> from a roster index to its neighbour \<open>j\<close> inside
  the roster swaps the two players and, in the same new state, the two entries: the entry
  read at the index is the one that was at \<open>j\<close> and the reverse. Every other player and
  every other entry is unchanged, as are the other fields of the game state.
\<close>

theorem movePlayer_swaps:
  assumes "index < length (players st)"
    and "dir = Up \<longrightarrow> 0 < index"
    and "dir = Down \<longrightarrow> Suc index < length (players st)"
  shows "\<exists>st'. movePlayer index dir st = Some st'
     \<and> (let j = (if dir = Up then index - 1 else index + 1) in
          players st' = (players st)[index := players st ! j, j := players st ! index]
        \<and> players st' ! index = players st ! j
        \<and> players st' ! j = players st ! index
        \<and> objGet (battingStats (gameState st')) index = objGet (battingStats (gameState st)) j
        \<and> objGet (battingStats (gameState st')) j = objGet (battingStats (gameState st)) index
        \<and> (\<forall>k. k \<noteq> index \<and> k \<noteq> j \<longrightarrow>
              objGet (battingStats (gameState st')) k = objGet (battingStats (gameState st)) k)
        \<and> (\<forall>k. k \<noteq> index \<and> k \<noteq> j \<longrightarrow> players st' ! k = players st ! k)
        \<and> length (players st') = length (players st)
        \<and> inning (gameState st') = inning (gameState st)
        \<and> isTopHalf (gameState st') = isTopHalf (gameState st)
        \<and> currentBatterIndex (gameState st') = currentBatterIndex (gameState st))"
proof -
  define j where "j = (if dir = Up then index - 1 else index + 1)"
  have jlen: "j < length (players st)" and jne: "j \<noteq> index"
    using assms by (cases dir; simp add: j_def)+
  have newIndex: "(if dir = Up then int index - 1 else int index + 1) = int j"
    using assms by (cases dir) (simp_all add: j_def)
  define bs where "bs = battingStats (gameState st)"
  define st' where "st' = st\<lparr>players := (players st)[index := players st ! j, j := players st ! index],
      gameState := (gameState st)\<lparr>battingStats :=
         objSet (objSet bs index (objGet bs j)) j (objGet bs index)\<rparr>\<rparr>"
  have mv: "movePlayer index dir st = Some st'"
    using assms(1) jlen
    by (simp add: movePlayer_def newIndex Let_def st'_def bs_def)
  show ?thesis
    unfolding j_def [symmetric] Let_def
    using mv assms(1) jlen jne
    by (intro exI [of _ st']) (simp add: st'_def bs_def objGet_objSet)
qed

text \<open>Moving the first of the three example players down.\<close>

theorem movePlayer_swaps_witness:
  "(0::nat) < length (players exampleRoster)
   \<and> Suc 0 < length (players exampleRoster)
   \<and> (\<exists>st'. movePlayer 0 Down exampleRoster = Some st'
         \<and> map name (players st') = [ascii ''B'', ascii ''A'', ascii ''C'']
         \<and> objGet (battingStats (gameState st')) 0 = Some zeroStats
         \<and> objGet (battingStats (gameState st')) 1
             = Some \<lparr>hits = 0, atBats = 1, walks = 0, results = [Some tokSanshin]\<rparr>
         \<and> objGet (battingStats (gameState st')) 2
             = Some \<lparr>hits = 1, atBats = 1, walks = 0, results = [Some tokAn]\<rparr>)"
proof -
  have len: "0 < length (players exampleRoster)" "Suc 0 < length (players exampleRoster)"
    by (simp_all add: exampleRoster_def)
  have up: "Down = Up \<longrightarrow> 0 < (0::nat)" by simp
  have down: "Down = Down \<longrightarrow> Suc 0 < length (players exampleRoster)"
    using len by simp
  have j: "(if Down = Up then 0 - 1 else 0 + 1) = (1::nat)" by simp
  from movePlayer_swaps [OF len(1) up down, unfolded Let_def j] obtain st' where big:
    "movePlayer 0 Down exampleRoster = Some st'
     \<and> players st' = (players exampleRoster)[0 := players exampleRoster ! 1,
                        1 := players exampleRoster ! 0]
     \<and> players st' ! 0 = players exampleRoster ! 1
     \<and> players st' ! 1 = players exampleRoster ! 0
     \<and> objGet (battingStats (gameState st')) 0
         = objGet (battingStats (gameState exampleRoster)) 1
     \<and> objGet (battingStats (gameState st')) 1
         = objGet (battingStats (gameState exampleRoster)) 0
     \<and> (\<forall>k. k \<noteq> 0 \<and> k \<noteq> 1 \<longrightarrow>
           objGet (battingStats (gameState st')) k
             = objGet (battingStats (gameState exampleRoster)) k)
     \<and> (\<forall>k. k \<noteq> 0 \<and> k \<noteq> 1 \<longrightarrow> players st' ! k = players exampleRoster ! k)
     \<and> length (players st') = length (players exampleRoster)
     \<and> inning (gameState st') = inning (gameState exampleRoster)
     \<and> isTopHalf (gameState st') = isTopHalf (gameState exampleRoster)
     \<and> currentBatterIndex (gameState st') = currentBatterIndex (gameState exampleRoster)" ..
  note mv = big [THEN conjunct1]
  note pl = big [THEN conjunct2, THEN conjunct1]
  note g0 = big [THEN conjunct2, THEN conjunct2, THEN conjunct2, THEN conjunct2, THEN conjunct1]
  note g1 = big [THEN conjunct2, THEN conjunct2, THEN conjunct2, THEN conjunct2,
    THEN conjunct2, THEN conjunct1]
  note rest = big [THEN conjunct2, THEN conjunct2, THEN conjunct2, THEN conjunct2,
    THEN conjunct2, THEN conjunct2, THEN conjunct1, rule_format]
  have a: "map name (players st') = [ascii ''B'', ascii ''A'', ascii ''C'']"
    unfolding pl by (simp add: exampleRoster_def)
  have b: "objGet (battingStats (gameState st')) 0 = Some zeroStats"
    using g0 exampleRoster_entries(2) by simp
  have c: "objGet (battingStats (gameState st')) 1
             = Some \<lparr>hits = 0, atBats = 1, walks = 0, results = [Some tokSanshin]\<rparr>"
    using g1 exampleRoster_entries(1) by simp
  have d: "objGet (battingStats (gameState st')) 2
             = Some \<lparr>hits = 1, atBats = 1, walks = 0, results = [Some tokAn]\<rparr>"
    using rest [of 2] exampleRoster_entries(3) by simp
  have "movePlayer 0 Down exampleRoster = Some st'
         \<and> map name (players st') = [ascii ''B'', ascii ''A'', ascii ''C'']
         \<and> objGet (battingStats (gameState st')) 0 = Some zeroStats
         \<and> objGet (battingStats (gameState st')) 1
             = Some \<lparr>hits = 0, atBats = 1, walks = 0, results = [Some tokSanshin]\<rparr>
         \<and> objGet (battingStats (gameState st')) 2
             = Some \<lparr>hits = 1, atBats = 1, walks = 0, results = [Some tokAn]\<rparr>"
    using mv a b c d by simp
  then have ex: "\<exists>st'. movePlayer 0 Down exampleRoster = Some st'
         \<and> map name (players st') = [ascii ''B'', ascii ''A'', ascii ''C'']
         \<and> objGet (battingStats (gameState st')) 0 = Some zeroStats
         \<and> objGet (battingStats (gameState st')) 1
             = Some \<lparr>hits = 0, atBats = 1, walks = 0, results = [Some tokSanshin]\<rparr>
         \<and> objGet (battingStats (gameState st')) 2
             = Some \<lparr>hits = 1, atBats = 1, walks = 0, results = [Some tokAn]\<rparr>"
    by (rule exI)
  from len(1) len(2) ex show ?thesis by (intro conjI)
qed

text \<open>
  Claim C9. With a name that is empty after trimming, \<open>addPlayer\<close> alerts and returns
  the state it was given: players, entries and every other field as before.
\<close>

theorem addPlayer_blank_name:
  "trim (playerName st) = [] \<Longrightarrow> addPlayer st = (Some alertEnterPlayerName, st)"
  by (simp add: addPlayer_def)

text \<open>The name of the example state is blank.\<close>

theorem addPlayer_blank_name_witness:
  "trim (playerName exampleRoster) = []
   \<and> addPlayer exampleRoster = (Some alertEnterPlayerName, exampleRoster)"
proof -
  have blank: "trim (playerName exampleRoster) = []"
    by (simp add: exampleRoster_def trim_def isWhiteSpace_def)
  from blank addPlayer_blank_name [OF blank] show ?thesis by (rule conjI)
qed

section \<open>Properties of the team aggregator\<close>

lemma sumStats_defined:
  "None \<notin> set vs \<Longrightarrow>
   sumStats vs (h, a, w)
     = Inr (h + sum_list (map hits [s. Some s \<leftarrow> vs]),
            a + sum_list (map atBats [s. Some s \<leftarrow> vs]),
            w + sum_list (map walks [s. Some s \<leftarrow> vs]))"
proof (induction vs arbitrary: h a w)
  case Nil
  show ?case by simp
next
  case (Cons v vs)
  then obtain s where v: "v = Some s" by (cases v) auto
  from Cons.prems have "None \<notin> set vs" by simp
  then show ?case
    unfolding v by (simp add: Cons.IH orZero_def)
qed

lemma sumStats_undefined: "None \<in> set vs \<Longrightarrow> sumStats vs totals = Inl TypeError"
  by (induction vs totals rule: sumStats.induct) auto

lemma decimal_step: "10 \<le> n \<Longrightarrow> decimal n = decimal (n div 10) @ [0x30 + n mod 10]"
  by (simp add: decimal.simps [of n])

lemma decimal_digit: "n < 10 \<Longrightarrow> decimal n = [0x30 + n]"
  by (simp add: decimal.simps [of n])

lemma decimal_length: "Suc 0 \<le> length (decimal n)"
  by (cases "n < 10") (simp_all add: decimal_step decimal_digit)

lemma decimal_thousands:
  assumes "1000 \<le> n"
  shows "decimal n = decimal (n div 1000)
           @ [0x30 + n div 100 mod 10, 0x30 + n div 10 mod 10, 0x30 + n mod 10]"
proof -
  have a: "10 \<le> n" "10 \<le> n div 10" "10 \<le> n div 10 div 10"
    using assms by simp_all
  have d: "n div 10 div 10 = n div 100" "n div 100 div 10 = n div 1000"
    by (simp_all add: div_mult2_eq [symmetric])
  have "decimal n = decimal (n div 10) @ [0x30 + n mod 10]"
    using a(1) by (rule decimal_step)
  also have "decimal (n div 10) = decimal (n div 10 div 10) @ [0x30 + n div 10 mod 10]"
    using a(2) by (rule decimal_step)
  also have "decimal (n div 10 div 10)
      = decimal (n div 10 div 10 div 10) @ [0x30 + n div 10 div 10 mod 10]"
    using a(3) by (rule decimal_step)
  finally show ?thesis
    unfolding d by simp
qed

lemma replicate_small:
  "replicate 3 x = [x, x, x]" "replicate 2 x = [x, x]" "replicate 1 x = [x]"
  by (simp_all add: numeral_3_eq_3 numeral_2_eq_2)

lemma render_fixed3:
  "(let digits = decimal n;
        padded = replicate (4 - length digits) 0x30 @ digits;
        k = length padded
    in take (k - 3) padded @ ascii ''.'' @ drop (k - 3) padded) = fixed3 n"
proof -
  consider "n < 10" | "10 \<le> n" "n < 100" | "100 \<le> n" "n < 1000" | "1000 \<le> n"
    by linarith
  then show ?thesis
  proof cases
    case 1
    then have dec: "decimal n = [0x30 + n]" "decimal (n div 1000) = [0x30]"
      by (simp_all add: decimal_digit)
    have digs: "n div 100 mod 10 = 0" "n div 10 mod 10 = 0" "n mod 10 = n"
      using 1 by simp_all
    have pad: "replicate (4 - length [0x30 + n]) 0x30 @ [0x30 + n] = [0x30, 0x30, 0x30, 0x30 + n]"
      by (simp add: replicate_small)
    show ?thesis
      unfolding Let_def fixed3_def dec digs pad by simp
  next
    case 2
    then have dec: "decimal n = [0x30 + n div 10, 0x30 + n mod 10]"
      "decimal (n div 1000) = [0x30]"
      by (simp_all add: decimal_step decimal_digit)
    have digs: "n div 100 mod 10 = 0" "n div 10 mod 10 = n div 10"
      using 2 by simp_all
    have pad: "replicate (4 - length [0x30 + n div 10, 0x30 + n mod 10]) 0x30
                 @ [0x30 + n div 10, 0x30 + n mod 10]
               = [0x30, 0x30, 0x30 + n div 10, 0x30 + n mod 10]"
      by (simp add: replicate_small)
    show ?thesis
      unfolding Let_def fixed3_def dec digs pad by simp
  next
    case 3
    then have "10 \<le> n" "10 \<le> n div 10" "n div 10 div 10 < 10" by simp_all
    then have "decimal n = [0x30 + n div 10 div 10, 0x30 + n div 10 mod 10, 0x30 + n mod 10]"
      by (simp add: decimal_step decimal_digit)
    moreover have "n div 10 div 10 = n div 100" by (simp add: div_mult2_eq [symmetric])
    ultimately have dec: "decimal n = [0x30 + n div 100, 0x30 + n div 10 mod 10, 0x30 + n mod 10]"
      by simp
    have dec0: "decimal (n div 1000) = [0x30]"
      using 3 by (simp add: decimal_digit)
    have digs: "n div 100 mod 10 = n div 100" using 3 by simp
    have pad: "replicate (4 - length [0x30 + n div 100, 0x30 + n div 10 mod 10, 0x30 + n mod 10]) 0x30
                 @ [0x30 + n div 100, 0x30 + n div 10 mod 10, 0x30 + n mod 10]
               = [0x30, 0x30 + n div 100, 0x30 + n div 10 mod 10, 0x30 + n mod 10]"
      by (simp add: replicate_small)
    show ?thesis
      unfolding Let_def fixed3_def dec dec0 digs pad by simp
  next
    case 4
    have len: "length (decimal n) = length (decimal (n div 1000)) + 3"
      by (simp add: decimal_thousands [OF 4])
    then have pad: "4 - length (decimal n) = 0"
      using decimal_length [of "n div 1000"] by linarith
    have k: "length (decimal n) - 3 = length (decimal (n div 1000))"
      using len by simp
    show ?thesis
      unfolding Let_def pad replicate_0 append_Nil k
      by (simp add: decimal_thousands [OF 4] fixed3_def)
  qed
qed

text \<open>Evaluation of the division and the printing at numerals.\<close>

lemma bitlen_numeral_eval:
  "bitlen (numeral k) = bitlen (numeral k div 2) + 1" "bitlen 1 = 1"
  by (subst compute_bitlen, simp)+

lemma decimal_eval:
  "decimal 0 = [0x30]" "decimal (Suc 0) = [0x31]"
  "decimal (numeral k) =
     (if (numeral k :: nat) < 10 then [0x30 + numeral k]
      else decimal (numeral k div 10) @ [0x30 + numeral k mod 10])"
  by (simp_all add: decimal.simps [of 0] decimal.simps [of "Suc 0"]
        decimal.simps [of "numeral k"])

lemma jsDivide_1_2: "jsDivide 1 2 = (4503599627370496, - 53)"
  by (simp add: jsDivide_def roundHalfEven_def Let_def bitlen_numeral_eval)

lemma toFixed3_half: "toFixed3 (4503599627370496, - 53) = ascii ''0.500''"
  by (simp add: toFixed3_def Let_def decimal_eval ascii_def)

lemma jsDivide_1_16: "toFixed3 (jsDivide 1 16) = ascii ''0.063''"
  by (simp add: jsDivide_def roundHalfEven_def Let_def bitlen_numeral_eval toFixed3_def decimal_eval ascii_def)

lemma roundHalfEven_error:
  assumes "0 < den"
  shows "\<bar>real_of_int (roundHalfEven num den) - real_of_int num / real_of_int den\<bar> \<le> 1 / 2"
proof -
  define q where "q = num div den"
  define r where "r = num mod den"
  have r: "0 \<le> r" "r < den"
    using assms by (simp_all add: r_def)
  have "num = q * den + r"
    by (simp add: q_def r_def)
  then have "real_of_int num = real_of_int q * real_of_int den + real_of_int r"
    by (metis of_int_add of_int_mult)
  then have ratio: "real_of_int num / real_of_int den = real_of_int q + real_of_int r / real_of_int den"
    using assms by (simp add: field_simps)
  have frac: "0 \<le> real_of_int r / real_of_int den" "real_of_int r / real_of_int den < 1"
    using r assms by simp_all
  have half: "2 * r < den \<longleftrightarrow> real_of_int r / real_of_int den < 1 / 2"
             "2 * r > den \<longleftrightarrow> real_of_int r / real_of_int den > 1 / 2"
    using assms by (simp_all add: field_simps) linarith+
  consider "2 * r < den" | "2 * r > den" | "2 * r = den"
    by linarith
  then show ?thesis
  proof cases
    case 1
    then have "roundHalfEven num den = q"
      by (simp add: roundHalfEven_def Let_def q_def r_def)
    with 1 half(1) frac ratio show ?thesis by simp
  next
    case 2
    then have "roundHalfEven num den = q + 1"
      by (simp add: roundHalfEven_def Let_def q_def r_def)
    with 2 half(2) frac ratio show ?thesis by simp
  next
    case 3
    then have "real_of_int r / real_of_int den = 1 / 2"
      using half by linarith
    moreover have "roundHalfEven num den = q \<or> roundHalfEven num den = q + 1"
      by (simp add: roundHalfEven_def Let_def q_def r_def)
    ultimately show ?thesis
      using ratio by auto
  qed
qed

lemma normal_exponent:
  fixes n y :: int
  assumes "0 < n" and "0 < y"
  defines "e1 \<equiv> bitlen n - bitlen y - 53"
  defines "e \<equiv> (if n * 2 ^ nat (- e1) \<ge> 2 ^ 53 * (y * 2 ^ nat e1) then e1 + 1 else e1)"
  shows "2 ^ 52 * (y * 2 ^ nat e) \<le> n * 2 ^ nat (- e)"
proof -
  have bn: "2 ^ nat (bitlen n - 1) \<le> n" and bn1: "1 \<le> bitlen n"
    using bitlen_bounds [OF assms(1)] assms(1) by (auto simp add: bitlen_alt_def)
  have by': "y < 2 ^ nat (bitlen y)" and by1: "1 \<le> bitlen y"
    using bitlen_bounds [OF assms(2)] assms(2) by (auto simp add: bitlen_alt_def)
  have expo: "52 + nat (bitlen y) + nat e1 = nat (bitlen n - 1) + nat (- e1)"
    using bn1 by1 unfolding e1_def by linarith
  have "2 ^ 52 * (y * 2 ^ nat e1) < 2 ^ 52 * ((2::int) ^ nat (bitlen y) * 2 ^ nat e1)"
    using by' by simp
  also have "\<dots> = (2::int) ^ (52 + nat (bitlen y) + nat e1)"
    by (simp add: power_add)
  also have "\<dots> = 2 ^ nat (bitlen n - 1) * 2 ^ nat (- e1)"
    unfolding expo by (simp add: power_add)
  also have "\<dots> \<le> n * 2 ^ nat (- e1)"
    using bn by simp
  finally have first: "2 ^ 52 * (y * 2 ^ nat e1) < n * 2 ^ nat (- e1)" .
  show ?thesis
  proof (cases "n * 2 ^ nat (- e1) \<ge> 2 ^ 53 * (y * 2 ^ nat e1)")
    case False
    then have "e = e1" by (simp add: e_def)
    with first show ?thesis by simp
  next
    case True
    then have e: "e = e1 + 1" by (simp add: e_def)
    show ?thesis
    proof (cases "0 \<le> e1")
      case True
      then have "nat (e1 + 1) = Suc (nat e1)" "nat (- (e1 + 1)) = 0" "nat (- e1) = 0"
        by linarith+
      with \<open>n * 2 ^ nat (- e1) \<ge> 2 ^ 53 * (y * 2 ^ nat e1)\<close> show ?thesis
        unfolding e by simp
    next
      case False
      then have "nat (e1 + 1) = 0" "nat e1 = 0" "nat (- e1) = Suc (nat (- (e1 + 1)))"
        by linarith+
      with \<open>n * 2 ^ nat (- e1) \<ge> 2 ^ 53 * (y * 2 ^ nat e1)\<close> show ?thesis
        unfolding e by simp
    qed
  qed
qed

lemma toFixed3_render:
  "toFixed3 (m, e) =
     (if m < 0 then ascii ''-'' else [])
       @ fixed3 (nat ((2 * 1000 * \<bar>m\<bar> * 2 ^ nat e + 2 ^ nat (- e)) div (2 * 2 ^ nat (- e))))"
  unfolding toFixed3_def prod.case
  using render_fixed3
    [of "nat ((2 * 1000 * \<bar>m\<bar> * 2 ^ nat e + 2 ^ nat (- e)) div (2 * 2 ^ nat (- e)))"]
  by (simp add: Let_def)

lemma toFixed3_nearest:
  fixes m e :: int
  assumes "0 \<le> m"
  defines "t \<equiv> (2 * 1000 * m * 2 ^ nat e + 2 ^ nat (- e)) div (2 * 2 ^ nat (- e))"
  shows "0 \<le> t"
    and "\<bar>real_of_int t - 1000 * (real_of_int m * (2 ^ nat e / 2 ^ nat (- e)))\<bar> \<le> 1 / 2"
proof -
  define P :: int where "P = 2 ^ nat e"
  define Q :: int where "Q = 2 ^ nat (- e)"
  have pos: "0 < P" "0 < Q" by (simp_all add: P_def Q_def)
  have t: "t = (2 * 1000 * m * P + Q) div (2 * Q)"
    by (simp add: t_def P_def Q_def)
  show "0 \<le> t"
    unfolding t using assms(1) pos by (simp add: pos_imp_zdiv_nonneg_iff)
  have "real_of_int t = real_of_int \<lfloor>real_of_int (2 * 1000 * m * P + Q) / real_of_int (2 * Q)\<rfloor>"
    unfolding t by (simp only: floor_divide_of_int_eq)
  moreover have "real_of_int (2 * 1000 * m * P + Q) / real_of_int (2 * Q)
      = 1000 * (real_of_int m * (real_of_int P / real_of_int Q)) + 1 / 2"
    using pos by (simp add: field_simps)
  ultimately have "real_of_int t
      = real_of_int \<lfloor>1000 * (real_of_int m * (real_of_int P / real_of_int Q)) + 1 / 2\<rfloor>"
    by simp
  then have "\<bar>real_of_int t - 1000 * (real_of_int m * (real_of_int P / real_of_int Q))\<bar> \<le> 1 / 2"
    by linarith
  then show "\<bar>real_of_int t - 1000 * (real_of_int m * (2 ^ nat e / 2 ^ nat (- e)))\<bar> \<le> 1 / 2"
    by (simp add: P_def Q_def)
qed

lemma jsDivide_nonzero:
  fixes x y :: int
  assumes "x \<noteq> 0"
  defines "e1 \<equiv> bitlen \<bar>x\<bar> - bitlen y - 53"
  defines "e \<equiv> (if \<bar>x\<bar> * 2 ^ nat (- e1) \<ge> 2 ^ 53 * (y * 2 ^ nat e1) then e1 + 1 else e1)"
  shows "jsDivide x y = (sgn x * roundHalfEven (\<bar>x\<bar> * 2 ^ nat (- e)) (y * 2 ^ nat e), e)"
  using assms(1) unfolding jsDivide_def e_def e1_def Let_def by simp

lemma jsDivide_accuracy:
  assumes "x \<noteq> 0" and "0 < y"
  shows "\<exists>m e. jsDivide x y = (sgn x * m, e) \<and> 0 < m
           \<and> \<bar>real_of_int m * (2 ^ nat e / 2 ^ nat (- e)) - \<bar>real_of_int x\<bar> / real_of_int y\<bar>
               \<le> \<bar>real_of_int x\<bar> / real_of_int y / 2 ^ 53"
proof -
  define n where "n = \<bar>x\<bar>"
  define e1 where "e1 = bitlen n - bitlen y - 53"
  define e where "e = (if n * 2 ^ nat (- e1) \<ge> 2 ^ 53 * (y * 2 ^ nat e1) then e1 + 1 else e1)"
  define N where "N = n * 2 ^ nat (- e)"
  define D where "D = y * 2 ^ nat e"
  define m where "m = roundHalfEven N D"
  have npos: "0 < n" using assms(1) by (simp add: n_def)
  have Dpos: "0 < D" using assms(2) by (simp add: D_def)
  have js: "jsDivide x y = (sgn x * m, e)"
    using jsDivide_nonzero [OF assms(1), of y]
    by (simp add: m_def N_def D_def e_def e1_def n_def)
  have norm: "2 ^ 52 * D \<le> N"
    using normal_exponent [OF npos assms(2)]
    unfolding N_def D_def e_def e1_def by simp
  define X where "X = real_of_int n / real_of_int y"
  define s :: real where "s = 2 ^ nat e / 2 ^ nat (- e)"
  define \<rho> where "\<rho> = real_of_int N / real_of_int D"
  have spos: "0 < s" by (simp add: s_def)
  have Xpos: "0 < X" using npos assms(2) by (simp add: X_def)
  have \<rho>s: "\<rho> * s = X"
    using assms(2) by (simp add: \<rho>_def s_def X_def N_def D_def field_simps)
  have "real_of_int (2 ^ 52 * D) \<le> real_of_int N"
    using norm by (simp only: of_int_le_iff)
  then have \<rho>big: "2 ^ 52 \<le> \<rho>"
    using Dpos by (simp add: \<rho>_def field_simps)
  have err: "\<bar>real_of_int m - \<rho>\<bar> \<le> 1 / 2"
    unfolding m_def \<rho>_def using Dpos by (rule roundHalfEven_error)
  have "(1::real) \<le> 2 ^ 52" by simp
  with err \<rho>big have "0 < real_of_int m"
    by linarith
  then have mpos: "0 < m" by simp
  have "\<bar>real_of_int m * s - X\<bar> = \<bar>real_of_int m - \<rho>\<bar> * s"
    using spos by (simp add: \<rho>s [symmetric] left_diff_distrib [symmetric] abs_mult)
  also have "\<dots> \<le> 1 / 2 * s"
    using err spos by (simp add: mult_right_mono)
  also have "\<dots> \<le> X / 2 ^ 53"
  proof -
    have "2 ^ 52 * s \<le> \<rho> * s"
      using \<rho>big spos by (simp add: mult_right_mono)
    then have "2 ^ 52 * s \<le> X" by (simp add: \<rho>s)
    then show ?thesis by simp
  qed
  finally have "\<bar>real_of_int m * s - X\<bar> \<le> X / 2 ^ 53" .
  then have "\<bar>real_of_int m * (2 ^ nat e / 2 ^ nat (- e)) - \<bar>real_of_int x\<bar> / real_of_int y\<bar>
               \<le> \<bar>real_of_int x\<bar> / real_of_int y / 2 ^ 53"
    by (simp add: s_def X_def n_def)
  with js mpos show ?thesis by blast
qed

lemma combine_errors:
  fixes t q X d :: real
  assumes "\<bar>t - 1000 * q\<bar> \<le> 1 / 2" and "\<bar>q - X\<bar> \<le> d"
  shows "\<bar>t / 1000 - X\<bar> \<le> 1 / 2000 + d"
  using assms by linarith

lemma toFixed3_jsDivide:
  assumes "0 < y"
  shows "\<exists>k. toFixed3 (jsDivide x y) = (if x < 0 then ascii ''-'' else []) @ fixed3 k
           \<and> \<bar>real k / 1000 - \<bar>real_of_int x\<bar> / real_of_int y\<bar>
               \<le> 1 / 2000 + \<bar>real_of_int x\<bar> / real_of_int y / 2 ^ 53"
proof (cases "x = 0")
  case True
  have "toFixed3 (jsDivide x y) = fixed3 0"
    unfolding True jsDivide_def by (simp add: toFixed3_render)
  then show ?thesis
    using True by (intro exI [of _ 0]) simp
next
  case False
  from jsDivide_accuracy [OF False assms] obtain m e where
    js: "jsDivide x y = (sgn x * m, e)" and mpos: "0 < m"
    and acc: "\<bar>real_of_int m * (2 ^ nat e / 2 ^ nat (- e)) - \<bar>real_of_int x\<bar> / real_of_int y\<bar>
               \<le> \<bar>real_of_int x\<bar> / real_of_int y / 2 ^ 53"
    by blast
  define t where "t = (2 * 1000 * m * 2 ^ nat e + 2 ^ nat (- e)) div (2 * 2 ^ nat (- e))"
  have m0: "0 \<le> m" using mpos by simp
  have tpos: "0 \<le> t"
    and near: "\<bar>real_of_int t - 1000 * (real_of_int m * (2 ^ nat e / 2 ^ nat (- e)))\<bar> \<le> 1 / 2"
    unfolding t_def using toFixed3_nearest [OF m0, of e] by simp_all
  have sign: "sgn x * m < 0 \<longleftrightarrow> x < 0"
    using mpos False by (cases "x < 0") (simp_all add: mult_less_0_iff)
  have mag: "\<bar>sgn x * m\<bar> = m"
    using mpos False by (simp add: abs_mult)
  have str: "toFixed3 (jsDivide x y) = (if x < 0 then ascii ''-'' else []) @ fixed3 (nat t)"
    unfolding js toFixed3_render sign mag t_def ..
  have "real (nat t) = real_of_int t"
    using tpos by simp
  with combine_errors [OF near acc]
  have "\<bar>real (nat t) / 1000 - \<bar>real_of_int x\<bar> / real_of_int y\<bar>
               \<le> 1 / 2000 + \<bar>real_of_int x\<bar> / real_of_int y / 2 ^ 53"
    by simp
  with str show ?thesis by blast
qed

lemma getTeamStats_defined:
  assumes "None \<notin> set (objValues (battingStats gs))"
  defines "h \<equiv> sum_list (map hits [s. Some s \<leftarrow> objValues (battingStats gs)])"
  defines "a \<equiv> sum_list (map atBats [s. Some s \<leftarrow> objValues (battingStats gs)])"
  defines "w \<equiv> sum_list (map walks [s. Some s \<leftarrow> objValues (battingStats gs)])"
  shows "getTeamStats gs =
     Inr \<lparr>totalHits = h, totalAtBats = a, totalWalks = w,
          avg = (if a > 0 then toFixed3 (jsDivide h a) else ascii ''.---''),
          obp = (if a + w > 0 then toFixed3 (jsDivide (h + w) (a + w)) else ascii ''.---'')\<rparr>"
  unfolding getTeamStats_def sumStats_defined [OF assms(1)] h_def a_def w_def by simp

lemma getTeamStats_undefined:
  "None \<in> set (objValues (battingStats gs)) \<Longrightarrow> getTeamStats gs = Inl TypeError"
  by (simp add: getTeamStats_def sumStats_undefined)

lemma threeDecimals_toFixed3: "0 < den \<Longrightarrow> threeDecimals (toFixed3 (jsDivide num den)) num den"
  unfolding threeDecimals_def by (rule toFixed3_jsDivide)

text \<open>
  What \<open>getTeamStats\<close> computes when every value of the object is an entry and the
  counters are small enough for the sums to be exact as doubles: the three totals are the
  sums of the counters over the entries; the average is the sentinel \<open>.---\<close> when the
  at-bats are not above zero, and otherwise hits / at-bats printed by \<open>toFixed(3)\<close>,
  which is that quotient written to three decimal places; the on-base percentage is the
  same with hits + walks over at-bats + walks. With no entry at all the totals are
  0, 0, 0 and both rates are the sentinel.
\<close>

lemma getTeamStats_defined_rates:
  "(None \<notin> set (objValues (battingStats gs))
    \<and> sum_list (map (\<lambda>s. \<bar>hits s\<bar> + \<bar>atBats s\<bar> + \<bar>walks s\<bar>)
                  [s. Some s \<leftarrow> objValues (battingStats gs)]) < 2 ^ 53 \<longrightarrow>
      (\<exists>ts. getTeamStats gs = Inr ts
         \<and> totalHits ts = sum_list (map hits [s. Some s \<leftarrow> objValues (battingStats gs)])
         \<and> totalAtBats ts = sum_list (map atBats [s. Some s \<leftarrow> objValues (battingStats gs)])
         \<and> totalWalks ts = sum_list (map walks [s. Some s \<leftarrow> objValues (battingStats gs)])
         \<and> (if totalAtBats ts > 0
             then avg ts = toFixed3 (jsDivide (totalHits ts) (totalAtBats ts))
                \<and> threeDecimals (avg ts) (totalHits ts) (totalAtBats ts)
             else avg ts = ascii ''.---'')
         \<and> (if totalAtBats ts + totalWalks ts > 0
             then obp ts = toFixed3 (jsDivide (totalHits ts + totalWalks ts)
                                      (totalAtBats ts + totalWalks ts))
                \<and> threeDecimals (obp ts) (totalHits ts + totalWalks ts)
                      (totalAtBats ts + totalWalks ts)
             else obp ts = ascii ''.---'')))
   \<and> getTeamStats (gs\<lparr>battingStats := []\<rparr>)
       = Inr \<lparr>totalHits = 0, totalAtBats = 0, totalWalks = 0,
              avg = ascii ''.---'', obp = ascii ''.---''\<rparr>"
proof (intro conjI impI)
  assume "None \<notin> set (objValues (battingStats gs))
    \<and> sum_list (map (\<lambda>s. \<bar>hits s\<bar> + \<bar>atBats s\<bar> + \<bar>walks s\<bar>)
                  [s. Some s \<leftarrow> objValues (battingStats gs)]) < 2 ^ 53"
  then have defined: "None \<notin> set (objValues (battingStats gs))"
    by (rule conjunct1)
  define h where "h = sum_list (map hits [s. Some s \<leftarrow> objValues (battingStats gs)])"
  define a where "a = sum_list (map atBats [s. Some s \<leftarrow> objValues (battingStats gs)])"
  define w where "w = sum_list (map walks [s. Some s \<leftarrow> objValues (battingStats gs)])"
  define ts where "ts = \<lparr>totalHits = h, totalAtBats = a, totalWalks = w,
          avg = (if a > 0 then toFixed3 (jsDivide h a) else ascii ''.---''),
          obp = (if a + w > 0 then toFixed3 (jsDivide (h + w) (a + w)) else ascii ''.---'')\<rparr>"
  have res: "getTeamStats gs = Inr ts"
    unfolding ts_def h_def a_def w_def using defined by (rule getTeamStats_defined)
  have sel: "totalHits ts = h" "totalAtBats ts = a" "totalWalks ts = w"
    by (simp_all add: ts_def)
  have av: "if a > 0 then avg ts = toFixed3 (jsDivide h a) \<and> threeDecimals (avg ts) h a
            else avg ts = ascii ''.---''"
    by (simp add: ts_def threeDecimals_toFixed3)
  have ob: "if a + w > 0
            then obp ts = toFixed3 (jsDivide (h + w) (a + w))
               \<and> threeDecimals (obp ts) (h + w) (a + w)
            else obp ts = ascii ''.---''"
    by (simp add: ts_def threeDecimals_toFixed3)
  show "\<exists>ts. getTeamStats gs = Inr ts
         \<and> totalHits ts = sum_list (map hits [s. Some s \<leftarrow> objValues (battingStats gs)])
         \<and> totalAtBats ts = sum_list (map atBats [s. Some s \<leftarrow> objValues (battingStats gs)])
         \<and> totalWalks ts = sum_list (map walks [s. Some s \<leftarrow> objValues (battingStats gs)])
         \<and> (if totalAtBats ts > 0
             then avg ts = toFixed3 (jsDivide (totalHits ts) (totalAtBats ts))
                \<and> threeDecimals (avg ts) (totalHits ts) (totalAtBats ts)
             else avg ts = ascii ''.---'')
         \<and> (if totalAtBats ts + totalWalks ts > 0
             then obp ts = toFixed3 (jsDivide (totalHits ts + totalWalks ts)
                                      (totalAtBats ts + totalWalks ts))
                \<and> threeDecimals (obp ts) (totalHits ts + totalWalks ts)
                      (totalAtBats ts + totalWalks ts)
             else obp ts = ascii ''.---'')"
    unfolding h_def [symmetric] a_def [symmetric] w_def [symmetric]
    using res av ob by (intro exI [of _ ts]) (simp only: sel simp_thms)
next
  show "getTeamStats (gs\<lparr>battingStats := []\<rparr>)
       = Inr \<lparr>totalHits = 0, totalAtBats = 0, totalWalks = 0,
              avg = ascii ''.---'', obp = ascii ''.---''\<rparr>"
    by (simp add: getTeamStats_def objValues_def)
qed

text \<open>
  The example state: one hit in two at-bats and no walk, so both rates print as 0.500.
\<close>

lemma getTeamStats_defined_rates_example:
  "None \<notin> set (objValues (battingStats (gameState exampleRoster)))
   \<and> sum_list (map (\<lambda>s. \<bar>hits s\<bar> + \<bar>atBats s\<bar> + \<bar>walks s\<bar>)
                 [s. Some s \<leftarrow> objValues (battingStats (gameState exampleRoster))]) < 2 ^ 53
   \<and> (\<exists>ts. getTeamStats (gameState exampleRoster) = Inr ts
         \<and> totalHits ts = 1 \<and> totalAtBats ts = 2 \<and> totalWalks ts = 0
         \<and> avg ts = ascii ''0.500'' \<and> obp ts = ascii ''0.500'')"
proof -
  have defined: "None \<notin> set (objValues (battingStats (gameState exampleRoster)))"
    by (simp add: exampleRoster_def objValues_def)
  have sums:
    "sum_list (map hits [s. Some s \<leftarrow> objValues (battingStats (gameState exampleRoster))]) = 1"
    "sum_list (map atBats [s. Some s \<leftarrow> objValues (battingStats (gameState exampleRoster))]) = 2"
    "sum_list (map walks [s. Some s \<leftarrow> objValues (battingStats (gameState exampleRoster))]) = 0"
    by (simp_all add: exampleRoster_def objValues_def zeroStats_def)
  have small: "sum_list (map (\<lambda>s. \<bar>hits s\<bar> + \<bar>atBats s\<bar> + \<bar>walks s\<bar>)
                 [s. Some s \<leftarrow> objValues (battingStats (gameState exampleRoster))]) < 2 ^ 53"
    by (simp add: exampleRoster_def objValues_def zeroStats_def)
  from getTeamStats_defined_rates [of "gameState exampleRoster", THEN conjunct1, rule_format,
    OF conjI [OF defined small]]
  obtain ts where big:
    "getTeamStats (gameState exampleRoster) = Inr ts
     \<and> totalHits ts
         = sum_list (map hits [s. Some s \<leftarrow> objValues (battingStats (gameState exampleRoster))])
     \<and> totalAtBats ts
         = sum_list (map atBats [s. Some s \<leftarrow> objValues (battingStats (gameState exampleRoster))])
     \<and> totalWalks ts
         = sum_list (map walks [s. Some s \<leftarrow> objValues (battingStats (gameState exampleRoster))])
     \<and> (if totalAtBats ts > 0
         then avg ts = toFixed3 (jsDivide (totalHits ts) (totalAtBats ts))
            \<and> threeDecimals (avg ts) (totalHits ts) (totalAtBats ts)
         else avg ts = ascii ''.---'')
     \<and> (if totalAtBats ts + totalWalks ts > 0
         then obp ts = toFixed3 (jsDivide (totalHits ts + totalWalks ts)
                                  (totalAtBats ts + totalWalks ts))
            \<and> threeDecimals (obp ts) (totalHits ts + totalWalks ts)
                  (totalAtBats ts + totalWalks ts)
         else obp ts = ascii ''.---'')" ..
  note res = big [THEN conjunct1]
  note c2 = big [THEN conjunct2, THEN conjunct1]
  note c3 = big [THEN conjunct2, THEN conjunct2, THEN conjunct1]
  note c4 = big [THEN conjunct2, THEN conjunct2, THEN conjunct2, THEN conjunct1]
  note c5 = big [THEN conjunct2, THEN conjunct2, THEN conjunct2, THEN conjunct2, THEN conjunct1]
  note c6 = big [THEN conjunct2, THEN conjunct2, THEN conjunct2, THEN conjunct2, THEN conjunct2]
  have tot: "totalHits ts = 1" "totalAtBats ts = 2" "totalWalks ts = 0"
    unfolding c2 c3 c4 by (rule sums)+
  have pos: "(0::int) < 2" "(0::int) < 2 + 0" by simp_all
  have av: "avg ts = toFixed3 (jsDivide 1 2)"
    using c5 unfolding tot if_P [OF pos(1)] by (rule conjunct1)
  have ob: "obp ts = toFixed3 (jsDivide (1 + 0) (2 + 0))"
    using c6 unfolding tot if_P [OF pos(2)] by (rule conjunct1)
  have ob': "obp ts = toFixed3 (jsDivide 1 2)"
    using ob by simp
  have "getTeamStats (gameState exampleRoster) = Inr ts
         \<and> totalHits ts = 1 \<and> totalAtBats ts = 2 \<and> totalWalks ts = 0
         \<and> avg ts = ascii ''0.500'' \<and> obp ts = ascii ''0.500''"
    unfolding av ob' jsDivide_1_2 toFixed3_half
    using res tot by (intro conjI) simp_all
  then have "\<exists>ts. getTeamStats (gameState exampleRoster) = Inr ts
         \<and> totalHits ts = 1 \<and> totalAtBats ts = 2 \<and> totalWalks ts = 0
         \<and> avg ts = ascii ''0.500'' \<and> obp ts = ascii ''0.500''"
    by (rule exI [where x = ts])
  with defined small show ?thesis by (intro conjI)
qed

text \<open>
  The record without a game state, after a first result for the first player and after a
  step down of that player.
\<close>

lemma normalizeResult_an: "normalizeResult tokAn = ascii ''hit''"
  by (simp add: classify_eval)

lemma applyResult_first_hit:
  "applyResult zeroStats 0 tokAn = \<lparr>hits = 1, atBats = 1, walks = 0, results = [Some tokAn]\<rparr>"
  by (rule BattingStats.equality)
     (simp_all add: applyResult_sel hitDelta_def atBatDelta_def walkDelta_def arrayGet_def
        arraySet_def zeroStats_def normalizeResult_an label_sets)

lemma legacyRoster_first_hit:
  "battingStats (updateBattingResult 0 0 tokAn (gameState legacyRoster))
     = [(0, Some \<lparr>hits = 1, atBats = 1, walks = 0, results = [Some tokAn]\<rparr>)]"
  unfolding updateBattingResult_battingStats
  by (simp add: legacyRoster_def objGet_def objSet_def applyResult_first_hit)

lemma jsDivide_1_1: "jsDivide 1 1 = (4503599627370496, - 52)"
  by (simp add: jsDivide_def roundHalfEven_def Let_def bitlen_numeral_eval)

lemma toFixed3_one: "toFixed3 (4503599627370496, - 52) = ascii ''1.000''"
  by (simp add: toFixed3_def Let_def decimal_eval ascii_def)

lemma legacyRoster_moved:
  "movePlayer 0 Down (legacyRoster\<lparr>gameState := updateBattingResult 0 0 tokAn (gameState legacyRoster)\<rparr>)
     = Some (legacyRoster
         \<lparr>players := [\<lparr>name = ascii ''B'', pos = ascii ''DH'', face = faceGood\<rparr>,
                      \<lparr>name = ascii ''A'', pos = ascii ''DH'', face = faceGood\<rparr>],
          gameState := (updateBattingResult 0 0 tokAn (gameState legacyRoster))
            \<lparr>battingStats :=
               [(0, None),
                (1, Some \<lparr>hits = 1, atBats = 1, walks = 0, results = [Some tokAn]\<rparr>)]\<rparr>\<rparr>)"
  by (simp add: movePlayer_def Let_def legacyRoster_first_hit objGet_def objSet_def)
     (simp add: legacyRoster_def)

text \<open>
  Claim C8 asks that the aggregator computes the three totals and the two rates of the
  entries it is given. The page calls \<open>getTeamStats\<close> in every render. On a record
  loaded without a game state, once the first player has a first result, it returns the
  totals 1, 1, 0 and both rates 1.000. One step of \<open>movePlayer\<close> for that player reads
  the missing entry of the neighbour and stores \<open>undefined\<close> under the key; on that
  object \<open>getTeamStats\<close> reads a field of \<open>undefined\<close> and throws. The page's own
  reading of an entry and \<open>updateBattingResult\<close> both take a missing entry for the
  all-zero one.
\<close>

theorem getTeamStats_throws_after_move:
  "getTeamStats (updateBattingResult 0 0 tokAn (gameState legacyRoster))
     = Inr \<lparr>totalHits = 1, totalAtBats = 1, totalWalks = 0,
            avg = ascii ''1.000'', obp = ascii ''1.000''\<rparr>
   \<and> map_option (\<lambda>st. getTeamStats (gameState st))
        (movePlayer 0 Down
           (legacyRoster\<lparr>gameState := updateBattingResult 0 0 tokAn (gameState legacyRoster)\<rparr>))
     = Some (Inl TypeError)"
proof
  show "getTeamStats (updateBattingResult 0 0 tokAn (gameState legacyRoster))
     = Inr \<lparr>totalHits = 1, totalAtBats = 1, totalWalks = 0,
            avg = ascii ''1.000'', obp = ascii ''1.000''\<rparr>"
    unfolding getTeamStats_def legacyRoster_first_hit
    by (simp add: objValues_def orZero_def jsDivide_1_1 toFixed3_one)
next
  show "map_option (\<lambda>st. getTeamStats (gameState st))
        (movePlayer 0 Down
           (legacyRoster\<lparr>gameState := updateBattingResult 0 0 tokAn (gameState legacyRoster)\<rparr>))
     = Some (Inl TypeError)"
    unfolding legacyRoster_moved
    by (simp add: getTeamStats_def objValues_def)
qed

end
